theory Spec2Isabelle
  imports Complex_Main
begin

section \<open>JavaScript values used by the converter\<close>

text \<open>
  The conversion core of \<^verbatim>\<open>server.js\<close> computes with JavaScript Numbers. A Number is
  modelled by its mathematical value: \<open>NaN\<close>, the two infinities, or a finite rational.
  Rounding to IEEE-754 doubles and the sign of zero are not modelled; on the integers of
  magnitude below \<open>2^53\<close> that dates, clock fields and epoch milliseconds are, both agree.
  A destructured array element may be \<^verbatim>\<open>undefined\<close>, so the parsed components are
  \<open>jsval\<close>s. Strings are lists of 8-bit characters, read as the code units U+0000 to
  U+00FF; text with code units beyond them is outside the model.
\<close>

datatype jsnum = NaN | PInf | NInf | Fin rat

datatype jsval = Undefined | JNum jsnum

datatype error = InvalidInput | RangeError

fun js_neg :: "jsnum \<Rightarrow> jsnum" where
  "js_neg NaN = NaN"
| "js_neg PInf = NInf"
| "js_neg NInf = PInf"
| "js_neg (Fin a) = Fin (- a)"

fun js_sub :: "jsnum \<Rightarrow> jsnum \<Rightarrow> jsnum" where
  "js_sub (Fin a) (Fin b) = Fin (a - b)"
| "js_sub NaN _ = NaN"
| "js_sub _ NaN = NaN"
| "js_sub PInf PInf = NaN"
| "js_sub NInf NInf = NaN"
| "js_sub PInf _ = PInf"
| "js_sub NInf _ = NInf"
| "js_sub (Fin a) PInf = NInf"
| "js_sub (Fin a) NInf = PInf"

fun js_mul :: "jsnum \<Rightarrow> jsnum \<Rightarrow> jsnum" where
  "js_mul (Fin a) (Fin b) = Fin (a * b)"
| "js_mul NaN _ = NaN"
| "js_mul _ NaN = NaN"
| "js_mul PInf PInf = PInf"
| "js_mul NInf NInf = PInf"
| "js_mul PInf NInf = NInf"
| "js_mul NInf PInf = NInf"
| "js_mul PInf (Fin b) = (if b = 0 then NaN else if 0 < b then PInf else NInf)"
| "js_mul NInf (Fin b) = (if b = 0 then NaN else if 0 < b then NInf else PInf)"
| "js_mul (Fin a) PInf = (if a = 0 then NaN else if 0 < a then PInf else NInf)"
| "js_mul (Fin a) NInf = (if a = 0 then NaN else if 0 < a then NInf else PInf)"

text \<open>Division; the only divisor in the source is the constant \<open>60000\<close>.\<close>

fun js_div :: "jsnum \<Rightarrow> jsnum \<Rightarrow> jsnum" where
  "js_div (Fin a) (Fin b) =
     (if b = 0 then (if a = 0 then NaN else if 0 < a then PInf else NInf) else Fin (a / b))"
| "js_div NaN _ = NaN"
| "js_div _ NaN = NaN"
| "js_div PInf (Fin b) = (if 0 \<le> b then PInf else NInf)"
| "js_div NInf (Fin b) = (if 0 \<le> b then NInf else PInf)"
| "js_div (Fin a) _ = Fin 0"
| "js_div _ _ = NaN"

text \<open>\<^verbatim>\<open>ToIntegerOrInfinity\<close> on a finite Number: truncation towards zero.\<close>

definition trunc :: "rat \<Rightarrow> int" where
  "trunc r = (if 0 \<le> r then \<lfloor>r\<rfloor> else \<lceil>r\<rceil>)"

definition ToNumber :: "jsval \<Rightarrow> jsnum" where
  "ToNumber v = (case v of Undefined \<Rightarrow> NaN | JNum n \<Rightarrow> n)"

text \<open>The three tests of the validation: \<^verbatim>\<open>!v\<close>, \<^verbatim>\<open>v == null\<close> and \<^verbatim>\<open>Number.isNaN(v)\<close>.\<close>

definition falsy :: "jsval \<Rightarrow> bool" where
  "falsy v = (v = Undefined \<or> v = JNum NaN \<or> v = JNum (Fin 0))"

definition isNullish :: "jsval \<Rightarrow> bool" where
  "isNullish v = (v = Undefined)"

definition Number_isNaN :: "jsval \<Rightarrow> bool" where
  "Number_isNaN v = (v = JNum NaN)"

section \<open>\<^verbatim>\<open>String.prototype.split\<close> and \<^verbatim>\<open>Number\<close> on strings\<close>

text \<open>
  \<^verbatim>\<open>str.split(sep)\<close> for a one-character separator: the pieces between the separators,
  always at least one (the empty string splits into one empty piece).
\<close>

fun js_split :: "char \<Rightarrow> string \<Rightarrow> string list" where
  "js_split sep [] = [[]]"
| "js_split sep (c # cs) =
     (if c = sep then [] # js_split sep cs
      else (case js_split sep cs of [] \<Rightarrow> [[c]] | w # ws \<Rightarrow> (c # w) # ws))"

text \<open>
  \<^verbatim>\<open>Number(s)\<close> follows the \<^verbatim>\<open>StringNumericLiteral\<close> grammar of ECMA-262: white space
  (tab, line feed, vertical tab, form feed, carriage return, space and no-break space,
  the blanks among the 8-bit code units) is trimmed; the empty text is \<open>0\<close>; a decimal literal has an optional sign, digits with an
  optional fraction and exponent, or is \<^verbatim>\<open>Infinity\<close>; a binary, octal or hexadecimal
  literal has a prefix and no sign; anything else is \<open>NaN\<close>.
\<close>

definition isWhite :: "char \<Rightarrow> bool" where
  "isWhite c = (c \<in> set [CHR 0x09, CHR 0x0A, CHR 0x0B, CHR 0x0C, CHR 0x0D, CHR 0x20, CHR 0xA0])"

definition trim :: "string \<Rightarrow> string" where
  "trim s = rev (dropWhile isWhite (rev (dropWhile isWhite s)))"

definition isDigit :: "char \<Rightarrow> bool" where
  "isDigit c = (48 \<le> (of_char c :: nat) \<and> (of_char c :: nat) \<le> 57)"

definition digitOf :: "char \<Rightarrow> nat" where
  "digitOf c = of_char c - 48"

definition hexDigitOf :: "char \<Rightarrow> nat option" where
  "hexDigitOf c =
     (if isDigit c then Some (digitOf c)
      else if 97 \<le> (of_char c :: nat) \<and> (of_char c :: nat) \<le> 102 then Some (of_char c - 87)
      else if 65 \<le> (of_char c :: nat) \<and> (of_char c :: nat) \<le> 70 then Some (of_char c - 55)
      else None)"

fun decVal :: "nat \<Rightarrow> string \<Rightarrow> nat" where
  "decVal acc [] = acc"
| "decVal acc (c # cs) = decVal (10 * acc + digitOf c) cs"

fun radixVal :: "nat \<Rightarrow> nat \<Rightarrow> string \<Rightarrow> nat option" where
  "radixVal b acc [] = Some acc"
| "radixVal b acc (c # cs) =
     (case hexDigitOf c of
        None \<Rightarrow> None
      | Some d \<Rightarrow> if d < b then radixVal b (b * acc + d) cs else None)"

definition radixLiteral :: "nat \<Rightarrow> string \<Rightarrow> jsnum" where
  "radixLiteral b ds =
     (if ds = [] then NaN
      else case radixVal b 0 ds of None \<Rightarrow> NaN | Some n \<Rightarrow> Fin (of_nat n))"

definition pow10 :: "int \<Rightarrow> rat" where
  "pow10 e = (if 0 \<le> e then 10 ^ nat e else 1 / 10 ^ nat (- e))"

definition exponentPart :: "string \<Rightarrow> int option" where
  "exponentPart r =
     (case r of
        [] \<Rightarrow> Some 0
      | c # t \<Rightarrow>
          if c = CHR ''e'' \<or> c = CHR ''E'' then
            (case t of
               [] \<Rightarrow> None
             | s # u \<Rightarrow>
                 if s = CHR ''+'' then
                   (if u \<noteq> [] \<and> list_all isDigit u then Some (int (decVal 0 u)) else None)
                 else if s = CHR ''-'' then
                   (if u \<noteq> [] \<and> list_all isDigit u then Some (- int (decVal 0 u)) else None)
                 else if list_all isDigit t then Some (int (decVal 0 t)) else None)
          else None)"

definition unsignedDecimal :: "string \<Rightarrow> jsnum" where
  "unsignedDecimal s =
     (if s = ''Infinity'' then PInf
      else
        let ip = takeWhile isDigit s;
            r1 = dropWhile isDigit s;
            fp = (case r1 of [] \<Rightarrow> [] | c # t \<Rightarrow> if c = CHR ''.'' then takeWhile isDigit t else []);
            r2 = (case r1 of [] \<Rightarrow> [] | c # t \<Rightarrow> if c = CHR ''.'' then dropWhile isDigit t else r1)
        in if ip = [] \<and> fp = [] then NaN
           else case exponentPart r2 of
                  None \<Rightarrow> NaN
                | Some e \<Rightarrow> Fin (of_nat (decVal 0 (ip @ fp)) * pow10 (e - int (length fp))))"

definition strNumericLiteral :: "string \<Rightarrow> jsnum" where
  "strNumericLiteral t =
     (case t of
        [] \<Rightarrow> Fin 0
      | c # r \<Rightarrow>
          if c = CHR ''+'' then unsignedDecimal r
          else if c = CHR ''-'' then js_neg (unsignedDecimal r)
          else if c = CHR ''0'' \<and> r \<noteq> [] \<and> (hd r = CHR ''x'' \<or> hd r = CHR ''X'') then radixLiteral 16 (tl r)
          else if c = CHR ''0'' \<and> r \<noteq> [] \<and> (hd r = CHR ''o'' \<or> hd r = CHR ''O'') then radixLiteral 8 (tl r)
          else if c = CHR ''0'' \<and> r \<noteq> [] \<and> (hd r = CHR ''b'' \<or> hd r = CHR ''B'') then radixLiteral 2 (tl r)
          else unsignedDecimal t)"

definition Number :: "string \<Rightarrow> jsnum" where
  "Number s = strNumericLiteral (trim s)"

text \<open>
  Array destructuring \<^verbatim>\<open>const [a, b, c] = xs\<close>: the element at the position, or
  \<^verbatim>\<open>undefined\<close> beyond the end of the array.
\<close>

definition element :: "jsnum list \<Rightarrow> nat \<Rightarrow> jsval" where
  "element xs i = (if i < length xs then JNum (xs ! i) else Undefined)"

section \<open>\<^verbatim>\<open>Date.UTC\<close> and \<^verbatim>\<open>new Date\<close>\<close>

text \<open>
  \<^verbatim>\<open>Date.UTC\<close> after ECMA-262: \<^verbatim>\<open>MakeFullYear\<close> maps the years 0 to 99 to 1900 to 1999,
  \<^verbatim>\<open>MakeDay\<close> carries a month outside 0..11 into the year and counts days from 1970-01-01
  in the proleptic Gregorian calendar, \<^verbatim>\<open>MakeTime\<close> and \<^verbatim>\<open>MakeDate\<close> add the clock fields
  in milliseconds, and \<^verbatim>\<open>TimeClip\<close> yields \<open>NaN\<close> beyond 8.64e15 milliseconds from the
  epoch. Each field is truncated to an integer, so a day of 0 or an hour of 25 rolls
  over into the neighbouring month or day. The day number is not capped before
  \<^verbatim>\<open>TimeClip\<close>.
\<close>

definition DayFromYear :: "int \<Rightarrow> int" where
  "DayFromYear y = 365 * (y - 1970) + (y - 1969) div 4 - (y - 1901) div 100 + (y - 1601) div 400"

definition InLeapYear :: "int \<Rightarrow> bool" where
  "InLeapYear y = (y mod 4 = 0 \<and> (y mod 100 \<noteq> 0 \<or> y mod 400 = 0))"

text \<open>Day within the year of the first day of month \<open>mn\<close> (0 is January).\<close>

definition monthStart :: "bool \<Rightarrow> int \<Rightarrow> int" where
  "monthStart leap mn =
     (let l = (if leap then 1 else 0)
      in if mn = 0 then 0 else if mn = 1 then 31 else if mn = 2 then 59 + l
         else if mn = 3 then 90 + l else if mn = 4 then 120 + l else if mn = 5 then 151 + l
         else if mn = 6 then 181 + l else if mn = 7 then 212 + l else if mn = 8 then 243 + l
         else if mn = 9 then 273 + l else if mn = 10 then 304 + l else 334 + l)"

definition MakeFullYear :: "jsnum \<Rightarrow> jsnum" where
  "MakeFullYear y =
     (case y of
        Fin r \<Rightarrow> (let t = trunc r in if 0 \<le> t \<and> t \<le> 99 then Fin (of_int (1900 + t)) else Fin (of_int t))
      | _ \<Rightarrow> y)"

definition MakeDay :: "jsnum \<Rightarrow> jsnum \<Rightarrow> jsnum \<Rightarrow> jsnum" where
  "MakeDay year month date =
     (case (year, month, date) of
        (Fin y, Fin m, Fin dt) \<Rightarrow>
          (let ym = trunc y + trunc m div 12;
               mn = trunc m mod 12
           in Fin (of_int (DayFromYear ym + monthStart (InLeapYear ym) mn + trunc dt - 1)))
      | _ \<Rightarrow> NaN)"

definition MakeTime :: "jsnum \<Rightarrow> jsnum \<Rightarrow> jsnum \<Rightarrow> jsnum \<Rightarrow> jsnum" where
  "MakeTime hour minute sec ms =
     (case (hour, minute, sec, ms) of
        (Fin h, Fin m, Fin s, Fin milli) \<Rightarrow>
          Fin (of_int (trunc h * 3600000 + trunc m * 60000 + trunc s * 1000 + trunc milli))
      | _ \<Rightarrow> NaN)"

definition MakeDate :: "jsnum \<Rightarrow> jsnum \<Rightarrow> jsnum" where
  "MakeDate day time =
     (case (day, time) of
        (Fin d, Fin t) \<Rightarrow> Fin (d * 86400000 + t)
      | _ \<Rightarrow> NaN)"

definition TimeClip :: "jsnum \<Rightarrow> jsnum" where
  "TimeClip time =
     (case time of
        Fin t \<Rightarrow> if 8640000000000000 < \<bar>t\<bar> then NaN else Fin (of_int (trunc t))
      | _ \<Rightarrow> NaN)"

definition DateUTC :: "jsnum \<Rightarrow> jsnum \<Rightarrow> jsnum \<Rightarrow> jsnum \<Rightarrow> jsnum \<Rightarrow> jsnum \<Rightarrow> jsnum" where
  "DateUTC year month date hours minutes seconds =
     TimeClip (MakeDate (MakeDay (MakeFullYear year) month date)
                        (MakeTime hours minutes seconds (Fin 0)))"

text \<open>
  A \<^verbatim>\<open>Date\<close> object holds a time value: an integer count of milliseconds, or none for
  an invalid date. \<^verbatim>\<open>new Date(v)\<close> clips the Number \<open>v\<close>; \<^verbatim>\<open>getTime\<close> reads it back.
\<close>

type_synonym jsdate = "int option"

definition newDate :: "jsnum \<Rightarrow> jsdate" where
  "newDate v = (case TimeClip v of Fin t \<Rightarrow> Some (trunc t) | _ \<Rightarrow> None)"

definition getTime :: "jsdate \<Rightarrow> jsnum" where
  "getTime d = (case d of None \<Rightarrow> NaN | Some t \<Rightarrow> Fin (of_int t))"

section \<open>The civil-time formatter\<close>

text \<open>
  \<^verbatim>\<open>Intl.DateTimeFormat\<close> is the external capability the core consumes. It is a parameter
  of the model: \<open>zoneKnown\<close> tells whether the constructor accepts a time zone identifier
  (it throws a \<^verbatim>\<open>RangeError\<close> otherwise), \<open>formatToParts\<close> is the formatter that
  \<^verbatim>\<open>getOffset\<close> builds (year, month, day, hour, minute and second, as typed parts with
  their text), and \<open>formatHM\<close> is the formatter of the conversion loops (two-digit hour
  and minute). Both throw a \<^verbatim>\<open>RangeError\<close> on an invalid date.
\<close>

record intl =
  zoneKnown :: "string \<Rightarrow> bool"
  formatToParts :: "string \<Rightarrow> int \<Rightarrow> (string \<times> string) list"
  formatHM :: "string \<Rightarrow> int \<Rightarrow> string"

section \<open>The offset resolver: \<^verbatim>\<open>getOffset\<close>\<close>

text \<open>
  The loop over the parts stores the text of every part that is not a literal under
  its type; a later part of the same type overwrites an earlier one.
\<close>

fun collectValues :: "(string \<times> string) list \<Rightarrow> (string \<rightharpoonup> string) \<Rightarrow> (string \<rightharpoonup> string)" where
  "collectValues [] values = values"
| "collectValues ((ty, v) # parts) values =
     (if ty \<noteq> ''literal'' then collectValues parts (values(ty \<mapsto> v))
      else collectValues parts values)"

text \<open>\<^verbatim>\<open>Number(values.k)\<close>: a missing property is \<^verbatim>\<open>undefined\<close>, whose Number is \<open>NaN\<close>.\<close>

definition numberOf :: "(string \<rightharpoonup> string) \<Rightarrow> string \<Rightarrow> jsnum" where
  "numberOf values k = (case values k of None \<Rightarrow> NaN | Some s \<Rightarrow> Number s)"

definition asUTC :: "(string \<times> string) list \<Rightarrow> jsnum" where
  "asUTC parts =
     (let values = collectValues parts Map.empty
      in DateUTC (numberOf values ''year'')
                 (js_sub (numberOf values ''month'') (Fin 1))
                 (numberOf values ''day'')
                 (numberOf values ''hour'')
                 (numberOf values ''minute'')
                 (numberOf values ''second''))"

definition getOffset :: "intl \<Rightarrow> jsdate \<Rightarrow> string \<Rightarrow> error + jsnum" where
  "getOffset env date timeZone =
     (if \<not> zoneKnown env timeZone then Inl RangeError
      else case date of
             None \<Rightarrow> Inl RangeError
           | Some t \<Rightarrow>
               Inr (js_neg (js_div (js_sub (getTime date) (asUTC (formatToParts env timeZone t)))
                                   (Fin 60000))))"

section \<open>The converter\<close>

text \<open>The five components that both entry points destructure from the two strings.\<close>

record components =
  year :: jsval
  month :: jsval
  day :: jsval
  hour :: jsval
  minute :: jsval

definition parseComponents :: "string \<Rightarrow> string \<Rightarrow> components" where
  "parseComponents dateStr timeStr =
     (let ds = map Number (js_split CHR ''-'' dateStr);
          ts = map Number (js_split CHR '':'' timeStr)
      in \<lparr> year = element ds 0, month = element ds 1, day = element ds 2,
           hour = element ts 0, minute = element ts 1 \<rparr>)"

text \<open>The condition under which both entry points throw \<^verbatim>\<open>Error("Invalid date or time format")\<close>.\<close>

definition invalidComponents :: "components \<Rightarrow> bool" where
  "invalidComponents c =
     (falsy (year c) \<or> falsy (month c) \<or> falsy (day c) \<or>
      isNullish (hour c) \<or> isNullish (minute c) \<or>
      Number_isNaN (year c) \<or> Number_isNaN (month c) \<or> Number_isNaN (day c) \<or>
      Number_isNaN (hour c) \<or> Number_isNaN (minute c))"

text \<open>\<^verbatim>\<open>Date.UTC(year, month - 1, day, hour, minute, 0)\<close> on the parsed components.\<close>

definition utcMillis :: "components \<Rightarrow> jsnum" where
  "utcMillis c =
     DateUTC (ToNumber (year c)) (js_sub (ToNumber (month c)) (Fin 1)) (ToNumber (day c))
             (ToNumber (hour c)) (ToNumber (minute c)) (Fin 0)"

definition calculateEpochFromTimezone :: "intl \<Rightarrow> string \<Rightarrow> string \<Rightarrow> string \<Rightarrow> error + jsnum" where
  "calculateEpochFromTimezone env dateStr timeStr sourceTimezone =
     (let c = parseComponents dateStr timeStr
      in if invalidComponents c then Inl InvalidInput
         else
           let anchorUTC = newDate (utcMillis c)
           in case getOffset env anchorUTC sourceTimezone of
                Inl e \<Rightarrow> Inl e
              | Inr offsetSource \<Rightarrow>
                  Inr (js_sub (utcMillis c) (js_mul (js_mul offsetSource (Fin 60)) (Fin 1000))))"

definition allZones :: "string list" where
  "allZones = [''America/Santiago'', ''America/New_York'', ''America/Argentina/Buenos_Aires'',
               ''America/Bogota'', ''America/Santo_Domingo'']"

text \<open>
  The loop \<^verbatim>\<open>for (const tz of zones) results[tz] = new Intl.DateTimeFormat(...).format(d)\<close>.
  The first zone the formatter rejects, or an invalid date, ends the loop with the
  \<^verbatim>\<open>RangeError\<close>, and no result object is returned.
\<close>

fun formatZones :: "intl \<Rightarrow> jsdate \<Rightarrow> string list \<Rightarrow> (string \<rightharpoonup> string) \<Rightarrow> error + (string \<rightharpoonup> string)" where
  "formatZones env d [] results = Inr results"
| "formatZones env d (tz # zones) results =
     (if \<not> zoneKnown env tz then Inl RangeError
      else case d of
             None \<Rightarrow> Inl RangeError
           | Some t \<Rightarrow> formatZones env d zones (results(tz \<mapsto> formatHM env tz t)))"

definition convertTime :: "intl \<Rightarrow> string \<Rightarrow> string \<Rightarrow> string \<Rightarrow> error + (string \<rightharpoonup> string)" where
  "convertTime env dateStr timeStr sourceTimezone =
     (let ds = map Number (js_split CHR ''-'' dateStr);
          ts = map Number (js_split CHR '':'' timeStr);
          year = element ds 0; month = element ds 1; day = element ds 2;
          hour = element ts 0; minute = element ts 1
      in if falsy year \<or> falsy month \<or> falsy day \<or> isNullish hour \<or> isNullish minute \<or>
            Number_isNaN year \<or> Number_isNaN month \<or> Number_isNaN day \<or>
            Number_isNaN hour \<or> Number_isNaN minute
         then Inl InvalidInput
         else
           let anchorUTC = newDate (DateUTC (ToNumber year) (js_sub (ToNumber month) (Fin 1))
                                            (ToNumber day) (ToNumber hour) (ToNumber minute) (Fin 0))
           in case getOffset env anchorUTC sourceTimezone of
                Inl e \<Rightarrow> Inl e
              | Inr offsetSource \<Rightarrow>
                  let epochUTC = js_sub (DateUTC (ToNumber year) (js_sub (ToNumber month) (Fin 1))
                                                 (ToNumber day) (ToNumber hour) (ToNumber minute) (Fin 0))
                                        (js_mul (js_mul offsetSource (Fin 60)) (Fin 1000));
                      zones = filter (\<lambda>tz. tz \<noteq> sourceTimezone) allZones;
                      dateUTC = newDate epochUTC
                  in formatZones env dateUTC zones Map.empty)"

text \<open>
  The body of the \<^verbatim>\<open>/convert-multi\<close> handler: the epoch from
  \<^verbatim>\<open>calculateEpochFromTimezone\<close>, formatted for every zone of the list, the source included.
\<close>

definition convertAll :: "intl \<Rightarrow> string \<Rightarrow> string \<Rightarrow> string \<Rightarrow> error + (string \<rightharpoonup> string)" where
  "convertAll env date time sourceTimezone =
     (case calculateEpochFromTimezone env date time sourceTimezone of
        Inl e \<Rightarrow> Inl e
      | Inr epochUTC \<Rightarrow> formatZones env (newDate epochUTC) allZones Map.empty)"

section \<open>A reference formatter\<close>

text \<open>
  A formatter that behaves as the specification assumes: for a table \<open>tz\<close> giving, for
  each known zone, the offset from UTC in milliseconds at every instant, it shows the
  proleptic Gregorian calendar date and the 24-hour clock time of the instant shifted by
  the offset. The parts follow the \<^verbatim>\<open>en-US\<close> pattern (month, day, year, hour, minute,
  second); hours run from 00 to 23; a year before year 1 is shown as its era year.
\<close>

definition civilFromDays :: "int \<Rightarrow> int \<times> int \<times> int" where
  "civilFromDays z =
     (let z0 = z + 719468;
          n400 = z0 div 146097;
          d1 = z0 mod 146097;
          n100 = min 3 (d1 div 36524);
          d2 = d1 - n100 * 36524;
          n4 = d2 div 1461;
          d3 = d2 mod 1461;
          n1 = min 3 (d3 div 365);
          doy = d3 - n1 * 365;
          y = 400 * n400 + 100 * n100 + 4 * n4 + n1;
          mp = (5 * doy + 2) div 153;
          d = doy - (153 * mp + 2) div 5 + 1;
          m = (if mp < 10 then mp + 3 else mp - 9)
      in (if m \<le> 2 then y + 1 else y, m, d))"

definition digitChar :: "nat \<Rightarrow> char" where
  "digitChar n = char_of (48 + n)"

fun showNat :: "nat \<Rightarrow> string" where
  "showNat n = (if n < 10 then [digitChar n] else showNat (n div 10) @ [digitChar (n mod 10)])"

declare showNat.simps [simp del]

definition pad2 :: "int \<Rightarrow> string" where
  "pad2 n = (if n < 10 then CHR ''0'' # showNat (nat n) else showNat (nat n))"

definition showYear :: "int \<Rightarrow> string" where
  "showYear y = (if 1 \<le> y then showNat (nat y) else showNat (nat (1 - y)))"

record civil =
  cYear :: int
  cMonth :: int
  cDay :: int
  cHour :: int
  cMinute :: int
  cSecond :: int

definition civilOf :: "int \<Rightarrow> civil" where
  "civilOf localMs =
     (let dayNo = localMs div 86400000;
          msInDay = localMs mod 86400000;
          ymd = civilFromDays dayNo
      in \<lparr> cYear = fst ymd, cMonth = fst (snd ymd), cDay = snd (snd ymd),
           cHour = msInDay div 3600000,
           cMinute = msInDay div 60000 mod 60,
           cSecond = msInDay div 1000 mod 60 \<rparr>)"

definition partsOf :: "civil \<Rightarrow> (string \<times> string) list" where
  "partsOf c =
     [(''month'', pad2 (cMonth c)), (''literal'', ''/''),
      (''day'', pad2 (cDay c)), (''literal'', ''/''),
      (''year'', showYear (cYear c)), (''literal'', '', ''),
      (''hour'', pad2 (cHour c)), (''literal'', '':''),
      (''minute'', pad2 (cMinute c)), (''literal'', '':''),
      (''second'', pad2 (cSecond c))]"

definition hmOf :: "civil \<Rightarrow> string" where
  "hmOf c = pad2 (cHour c) @ '':'' @ pad2 (cMinute c)"

definition std_intl :: "(string \<Rightarrow> (int \<Rightarrow> int) option) \<Rightarrow> intl" where
  "std_intl tz =
     \<lparr> zoneKnown = (\<lambda>z. tz z \<noteq> None),
       formatToParts = (\<lambda>z t. case tz z of None \<Rightarrow> [] | Some off \<Rightarrow> partsOf (civilOf (t + off t))),
       formatHM = (\<lambda>z t. case tz z of None \<Rightarrow> [] | Some off \<Rightarrow> hmOf (civilOf (t + off t))) \<rparr>"

text \<open>
  A sample table: the offsets of the five zones of the application as published for
  2025. Santiago is at UTC-3 until 2025-04-06 03:00 UTC and from 2025-09-07 04:00 UTC,
  at UTC-4 between; New York is at UTC-4 from 2025-03-09 07:00 UTC to 2025-11-02 06:00
  UTC, at UTC-5 outside; Buenos Aires, Bogota and Santo Domingo keep one offset.
\<close>

definition hours :: "int \<Rightarrow> int" where
  "hours n = n * 3600000"

definition santiago2025 :: "int \<Rightarrow> int" where
  "santiago2025 t = (if 1743908400000 \<le> t \<and> t < 1757217600000 then hours (-4) else hours (-3))"

definition newYork2025 :: "int \<Rightarrow> int" where
  "newYork2025 t = (if 1741503600000 \<le> t \<and> t < 1762063200000 then hours (-4) else hours (-5))"

definition zones2025 :: "string \<Rightarrow> (int \<Rightarrow> int) option" where
  "zones2025 z =
     (if z = ''America/Santiago'' then Some santiago2025
      else if z = ''America/New_York'' then Some newYork2025
      else if z = ''America/Argentina/Buenos_Aires'' then Some (\<lambda>t. hours (-3))
      else if z = ''America/Bogota'' then Some (\<lambda>t. hours (-5))
      else if z = ''America/Santo_Domingo'' then Some (\<lambda>t. hours (-4))
      else None)"

section \<open>The specification's wording of the failure condition\<close>

text \<open>
  The specification describes the inputs that fail: a component among year, month, day,
  hour and minute that is missing or not a number, or a year, month or day of zero.
\<close>

definition missingOrNaN :: "jsval \<Rightarrow> bool" where
  "missingOrNaN v = (v = Undefined \<or> v = JNum NaN)"

definition isZero :: "jsval \<Rightarrow> bool" where
  "isZero v = (v = JNum (Fin 0))"

definition parsingFails :: "components \<Rightarrow> bool" where
  "parsingFails c =
     (missingOrNaN (year c) \<or> missingOrNaN (month c) \<or> missingOrNaN (day c) \<or>
      missingOrNaN (hour c) \<or> missingOrNaN (minute c) \<or>
      isZero (year c) \<or> isZero (month c) \<or> isZero (day c))"

section \<open>Auxiliary definitions for the proofs\<close>

text \<open>The time value \<^verbatim>\<open>Date.UTC\<close> computes from integer fields, before \<^verbatim>\<open>TimeClip\<close>.\<close>

definition utcInt :: "int \<Rightarrow> int \<Rightarrow> int \<Rightarrow> int \<Rightarrow> int \<Rightarrow> int \<Rightarrow> int" where
  "utcInt y m d h mi s =
     (let yr = (if 0 \<le> y \<and> y \<le> 99 then 1900 + y else y);
          ym = yr + m div 12
      in (DayFromYear ym + monthStart (InLeapYear ym) (m mod 12) + d - 1) * 86400000
         + h * 3600000 + mi * 60000 + s * 1000)"


section \<open>Calendar arithmetic\<close>

text \<open>
  The day number of March 1st and of the following January 1st, for a year written as
  400-year, 100-year, 4-year cycles and a rest.
\<close>

lemma DayFromYear_march:
  fixes a b c e :: int
  assumes b: "0 \<le> b" "b \<le> 3" and c: "0 \<le> c" "c \<le> 24" and e: "0 \<le> e" "e \<le> 3"
  defines "y \<equiv> 400 * a + 100 * b + 4 * c + e"
  shows "DayFromYear y + 59 + (if InLeapYear y then 1 else 0)
         = 146097 * a + 36524 * b + 1461 * c + 365 * e - 719468"
proof -
  have h4: "(y - 1969) div 4 = 100 * a + 25 * b + c - 493 + (if e = 0 then 0 else 1)"
    using e unfolding y_def by (auto; linarith)
  have h100: "(y - 1901) div 100 = 4 * a + b - 20 + (if c = 0 \<and> e = 0 then 0 else 1)"
    using c e unfolding y_def by (auto; linarith)
  have h400: "(y - 1601) div 400 = a - 5 + (if b = 0 \<and> c = 0 \<and> e = 0 then 0 else 1)"
    using b c e unfolding y_def by (auto; linarith)
  have "y = 4 * (100 * a + 25 * b + c) + e" by (simp add: y_def)
  then have "y mod 4 = e mod 4" by (simp only: mod_mult_self4)
  then have m4: "y mod 4 = e" using e by simp
  have "y = 100 * (4 * a + b) + (4 * c + e)" by (simp add: y_def)
  then have "y mod 100 = (4 * c + e) mod 100" by (simp only: mod_mult_self4)
  then have m100: "y mod 100 = 4 * c + e" using c e by simp
  have "y = 400 * a + (100 * b + 4 * c + e)" by (simp add: y_def)
  then have "y mod 400 = (100 * b + 4 * c + e) mod 400" by (simp only: mod_mult_self4)
  then have m400: "y mod 400 = 100 * b + 4 * c + e" using b c e by simp
  have leap: "InLeapYear y = (e = 0 \<and> (c \<noteq> 0 \<or> b = 0))"
    unfolding InLeapYear_def m4 m100 m400 using b c e by auto
  show ?thesis
    unfolding DayFromYear_def h4 h100 h400 leap using b c e unfolding y_def by auto
qed

lemma DayFromYear_january:
  fixes a b c e :: int
  assumes b: "0 \<le> b" "b \<le> 3" and c: "0 \<le> c" "c \<le> 24" and e: "0 \<le> e" "e \<le> 3"
  defines "y \<equiv> 400 * a + 100 * b + 4 * c + e"
  shows "DayFromYear (y + 1) = 146097 * a + 36524 * b + 1461 * c + 365 * e + 306 - 719468"
proof -
  have h4: "(y + 1 - 1969) div 4 = 100 * a + 25 * b + c - 492"
    using e unfolding y_def by linarith
  have h100: "(y + 1 - 1901) div 100 = 4 * a + b - 19"
    using c e unfolding y_def by linarith
  have h400: "(y + 1 - 1601) div 400 = a - 4"
    using b c e unfolding y_def by linarith
  show ?thesis
    unfolding DayFromYear_def h4 h100 h400 unfolding y_def by simp
qed


lemma civilFromDays_inverse:
  assumes cfd: "civilFromDays z = (y, m, d)"
  shows "1 \<le> m \<and> m \<le> 12 \<and> 1 \<le> d \<and> d \<le> 31 \<and>
         DayFromYear y + monthStart (InLeapYear y) (m - 1) + d - 1 = z"
proof -
  define z0 where "z0 = z + 719468"
  define a where "a = z0 div 146097"
  define d1 where "d1 = z0 mod 146097"
  define b where "b = min 3 (d1 div 36524)"
  define d2 where "d2 = d1 - b * 36524"
  define c where "c = d2 div 1461"
  define d3 where "d3 = d2 mod 1461"
  define e where "e = min 3 (d3 div 365)"
  define doy where "doy = d3 - e * 365"
  define y0 where "y0 = 400 * a + 100 * b + 4 * c + e"
  define mp where "mp = (5 * doy + 2) div 153"
  have z0: "z0 = 146097 * a + d1" unfolding a_def d1_def by simp
  have d1: "0 \<le> d1" "d1 < 146097" unfolding d1_def by simp_all
  have b: "0 \<le> b" "b \<le> 3" using d1 unfolding b_def by simp_all
  have d2: "0 \<le> d2" "d2 \<le> 36524" using d1 unfolding d2_def b_def by (simp_all add: min_def, linarith+)
  have d2': "d2 = 1461 * c + d3" unfolding c_def d3_def by simp
  have d3: "0 \<le> d3" "d3 < 1461" unfolding d3_def by simp_all
  have c: "0 \<le> c" "c \<le> 24" using d2 unfolding c_def by (simp, linarith)
  have e: "0 \<le> e" "e \<le> 3" using d3 unfolding e_def by simp_all
  have doy: "0 \<le> doy" "doy \<le> 365" using d3 unfolding doy_def e_def by (simp_all add: min_def, linarith+)
  have mp: "0 \<le> mp" "mp \<le> 11" using doy unfolding mp_def by linarith+
  have mp_lo: "153 * mp \<le> 5 * doy + 2" and mp_hi: "5 * doy + 2 < 153 * mp + 153"
    unfolding mp_def by linarith+
  have zeq: "z = 146097 * a + 36524 * b + 1461 * c + 365 * e + doy - 719468"
    using z0 d2' unfolding z0_def d2_def doy_def by linarith
  have march: "DayFromYear y0 + 59 + (if InLeapYear y0 then 1 else 0)
         = 146097 * a + 36524 * b + 1461 * c + 365 * e - 719468"
    unfolding y0_def by (rule DayFromYear_march [OF b c e])
  have january: "DayFromYear (y0 + 1) = 146097 * a + 36524 * b + 1461 * c + 365 * e + 306 - 719468"
    unfolding y0_def by (rule DayFromYear_january [OF b c e])
  have "civilFromDays z =
          (if (if mp < 10 then mp + 3 else mp - 9) \<le> 2 then y0 + 1 else y0,
           if mp < 10 then mp + 3 else mp - 9, doy - (153 * mp + 2) div 5 + 1)"
    unfolding civilFromDays_def Let_def
      z0_def [symmetric] a_def [symmetric] d1_def [symmetric] b_def [symmetric]
      d2_def [symmetric] c_def [symmetric] d3_def [symmetric] e_def [symmetric]
      doy_def [symmetric] y0_def [symmetric] mp_def [symmetric] ..
  with cfd have "(y, m, d) =
          (if (if mp < 10 then mp + 3 else mp - 9) \<le> 2 then y0 + 1 else y0,
           if mp < 10 then mp + 3 else mp - 9, doy - (153 * mp + 2) div 5 + 1)"
    by (rule subst)
  then have res: "y = (if (if mp < 10 then mp + 3 else mp - 9) \<le> 2 then y0 + 1 else y0)"
            "m = (if mp < 10 then mp + 3 else mp - 9)"
            "d = doy - (153 * mp + 2) div 5 + 1"
    by (auto simp only: prod.inject)
  have "mp = 0 \<or> mp = 1 \<or> mp = 2 \<or> mp = 3 \<or> mp = 4 \<or> mp = 5 \<or> mp = 6 \<or> mp = 7 \<or>
        mp = 8 \<or> mp = 9 \<or> mp = 10 \<or> mp = 11"
    using mp by presburger
  then show ?thesis
    using mp_lo mp_hi march january zeq doy unfolding res
    by (elim disjE) (simp_all add: monthStart_def)
qed

section \<open>Decimal text and \<^verbatim>\<open>Number\<close>\<close>

lemma isDigit_not_special:
  assumes "isDigit c"
  shows "\<not> isWhite c" "c \<noteq> CHR ''+''" "c \<noteq> CHR ''-''" "c \<noteq> CHR ''x''" "c \<noteq> CHR ''X''"
    "c \<noteq> CHR ''o''" "c \<noteq> CHR ''O''" "c \<noteq> CHR ''b''" "c \<noteq> CHR ''B''" "c \<noteq> CHR ''I''"
  using assms by (auto simp: isDigit_def isWhite_def)

lemma trim_digits:
  assumes "list_all isDigit s"
  shows "trim s = s"
proof -
  have a: "dropWhile isWhite s = s"
    using assms by (cases s) (auto simp: isDigit_not_special)
  have "list_all isDigit (rev s)" using assms by (simp add: list_all_iff)
  then have b: "dropWhile isWhite (rev s) = rev s"
    by (cases "rev s") (auto simp: isDigit_not_special)
  show ?thesis unfolding trim_def a b by simp
qed

lemma unsignedDecimal_digits:
  assumes "s \<noteq> []" "list_all isDigit s"
  shows "unsignedDecimal s = Fin (of_nat (decVal 0 s))"
proof -
  have tw: "takeWhile isDigit s = s" using assms(2) by (simp add: list_all_iff)
  have dw: "dropWhile isDigit s = []" using assms(2) by (simp add: list_all_iff)
  have ni: "s \<noteq> ''Infinity''" using assms(2) by (auto simp: isDigit_def)
  show ?thesis
    unfolding unsignedDecimal_def Let_def tw dw using assms(1) ni
    by (simp add: exponentPart_def pow10_def)
qed

lemma Number_digits:
  assumes "s \<noteq> []" "list_all isDigit s"
  shows "Number s = Fin (of_nat (decVal 0 s))"
proof -
  obtain c r where s: "s = c # r" using assms(1) by (cases s) auto
  have c: "isDigit c" using assms(2) s by simp
  have r: "r \<noteq> [] \<Longrightarrow> isDigit (hd r)" using assms(2) s by (cases r) auto
  have cp: "(c = CHR ''+'') = False" and cm: "(c = CHR ''-'') = False"
    using isDigit_not_special [OF c] by simp_all
  have nx: "(c = CHR ''0'' \<and> r \<noteq> [] \<and> (hd r = CHR ''x'' \<or> hd r = CHR ''X'')) = False"
    using isDigit_not_special [OF r] by blast
  have no: "(c = CHR ''0'' \<and> r \<noteq> [] \<and> (hd r = CHR ''o'' \<or> hd r = CHR ''O'')) = False"
    using isDigit_not_special [OF r] by blast
  have nb: "(c = CHR ''0'' \<and> r \<noteq> [] \<and> (hd r = CHR ''b'' \<or> hd r = CHR ''B'')) = False"
    using isDigit_not_special [OF r] by blast
  have "strNumericLiteral s = unsignedDecimal s"
    unfolding strNumericLiteral_def s list.case cp cm nx no nb if_False ..
  then show ?thesis
    unfolding Number_def trim_digits [OF assms(2)] using unsignedDecimal_digits [OF assms] by simp
qed

lemma isDigit_digitChar: "k < 10 \<Longrightarrow> isDigit (digitChar k)"
  by (simp add: isDigit_def digitChar_def)

lemma digitOf_digitChar: "k < 10 \<Longrightarrow> digitOf (digitChar k) = k"
  by (simp add: digitOf_def digitChar_def)

lemma decVal_snoc: "decVal acc (xs @ [c]) = 10 * decVal acc xs + digitOf c"
  by (induction xs arbitrary: acc) auto

lemma showNat_digits: "showNat n \<noteq> [] \<and> list_all isDigit (showNat n)"
proof (induction n rule: showNat.induct)
  case (1 n)
  show ?case
  proof (cases "n < 10")
    case True
    then show ?thesis by (subst (1 2) showNat.simps) (simp add: isDigit_digitChar)
  next
    case False
    then show ?thesis using 1 by (subst (1 2) showNat.simps) (simp add: isDigit_digitChar)
  qed
qed

lemma decVal_showNat: "decVal 0 (showNat n) = n"
proof (induction n rule: showNat.induct)
  case (1 n)
  show ?case
  proof (cases "n < 10")
    case True
    then show ?thesis by (subst showNat.simps) (simp add: digitOf_digitChar)
  next
    case False
    then show ?thesis using 1 by (subst showNat.simps) (simp add: decVal_snoc digitOf_digitChar)
  qed
qed

lemma Number_showNat: "Number (showNat n) = Fin (of_nat n)"
  using Number_digits [of "showNat n"] showNat_digits [of n] by (simp add: decVal_showNat)

lemma Number_pad2: "0 \<le> k \<Longrightarrow> Number (pad2 k) = Fin (of_int k)"
proof -
  assume k: "0 \<le> k"
  have z: "isDigit CHR ''0''" by (simp add: isDigit_def)
  have "Number (CHR ''0'' # showNat (nat k)) = Fin (of_nat (decVal 0 (CHR ''0'' # showNat (nat k))))"
    using showNat_digits [of "nat k"] z by (intro Number_digits) simp_all
  also have "decVal 0 (CHR ''0'' # showNat (nat k)) = nat k"
    by (simp add: digitOf_def decVal_showNat)
  finally have a: "Number (CHR ''0'' # showNat (nat k)) = Fin (of_nat (nat k))" .
  show ?thesis using k a by (simp add: pad2_def Number_showNat)
qed

section \<open>\<^verbatim>\<open>Date.UTC\<close> on integer fields and on the reference formatter's parts\<close>

lemma trunc_of_int [simp]: "trunc (of_int k) = k"
  by (simp add: trunc_def)

lemma clock_fields:
  fixes ms :: int
  shows "ms div 3600000 * 3600000 + ms div 60000 mod 60 * 60000 + ms div 1000 mod 60 * 1000
         = ms div 1000 * 1000"
proof -
  define sec where "sec = ms div 1000"
  define minu where "minu = sec div 60"
  have m: "ms div 60000 = minu"
    unfolding minu_def sec_def using zdiv_zmult2_eq [of 60 ms 1000] by simp
  have h: "ms div 3600000 = minu div 60"
    unfolding minu_def sec_def
    using zdiv_zmult2_eq [of 60 ms 1000] zdiv_zmult2_eq [of 60 ms 60000] by simp
  have a: "sec = minu * 60 + sec mod 60" unfolding minu_def by simp
  have b: "minu = minu div 60 * 60 + minu mod 60" by simp
  show ?thesis
    unfolding m h sec_def [symmetric] using a b by linarith
qed

lemma day_and_clock:
  fixes L :: int
  shows "L div 86400000 * 86400000 + L mod 86400000 div 1000 * 1000 = L div 1000 * 1000"
proof -
  have "L = 1000 * (L div 86400000 * 86400) + L mod 86400000"
    using div_mult_mod_eq [of L 86400000] by linarith
  then have "L div 1000 = (1000 * (L div 86400000 * 86400) + L mod 86400000) div 1000"
    by simp
  also have "\<dots> = L div 86400000 * 86400 + L mod 86400000 div 1000"
    by (simp only: div_mult_self4)
  finally show ?thesis by linarith
qed

lemma clock_ranges:
  fixes L :: int
  defines "ms \<equiv> L mod 86400000"
  shows "0 \<le> ms div 3600000" "0 \<le> ms div 60000 mod 60" "0 \<le> ms div 1000 mod 60"
        "ms div 3600000 \<le> 23" "ms div 60000 mod 60 \<le> 59" "ms div 1000 mod 60 \<le> 59"
proof -
  have "0 \<le> ms" "ms < 86400000" unfolding ms_def by simp_all
  then show "0 \<le> ms div 3600000" "ms div 3600000 \<le> 23" by linarith+
  show "0 \<le> ms div 60000 mod 60" "0 \<le> ms div 1000 mod 60"
       "ms div 60000 mod 60 \<le> 59" "ms div 1000 mod 60 \<le> 59" by simp_all
qed



lemma MakeFullYear_int:
  "MakeFullYear (Fin (of_int y)) = Fin (of_int (if 0 \<le> y \<and> y \<le> 99 then 1900 + y else y))"
  by (simp only: MakeFullYear_def jsnum.case trunc_of_int Let_def if_distrib [of Fin] if_distrib [of of_int])

lemma MakeDay_int:
  "MakeDay (Fin (of_int y)) (Fin (of_int m)) (Fin (of_int d))
   = Fin (of_int (DayFromYear (y + m div 12) + monthStart (InLeapYear (y + m div 12)) (m mod 12) + d - 1))"
  by (simp only: MakeDay_def prod.case jsnum.case trunc_of_int Let_def)

lemma MakeTime_int:
  "MakeTime (Fin (of_int h)) (Fin (of_int mi)) (Fin (of_int s)) (Fin 0)
   = Fin (of_int (h * 3600000 + mi * 60000 + s * 1000))"
proof -
  have z: "trunc 0 = 0" by (simp add: trunc_def)
  show ?thesis
    by (simp only: MakeTime_def prod.case jsnum.case trunc_of_int z add_0_right)
qed

lemma MakeDate_int:
  "MakeDate (Fin (of_int a)) (Fin (of_int b)) = Fin (of_int (a * 86400000 + b))"
  by (simp add: MakeDate_def)

lemma TimeClip_int:
  "TimeClip (Fin (of_int k)) = (if \<bar>k\<bar> \<le> 8640000000000000 then Fin (of_int k) else NaN)"
proof -
  have "(8640000000000000 < \<bar>of_int k :: rat\<bar>) = (8640000000000000 < \<bar>k\<bar>)"
    by (metis of_int_abs of_int_less_iff of_int_numeral)
  then show ?thesis
    by (simp only: TimeClip_def jsnum.case trunc_of_int) auto
qed

lemma DateUTC_int:
  "DateUTC (Fin (of_int y)) (Fin (of_int m)) (Fin (of_int d))
           (Fin (of_int h)) (Fin (of_int mi)) (Fin (of_int s))
   = (if \<bar>utcInt y m d h mi s\<bar> \<le> 8640000000000000 then Fin (of_int (utcInt y m d h mi s)) else NaN)"
proof -
  have "MakeDate (MakeDay (MakeFullYear (Fin (of_int y))) (Fin (of_int m)) (Fin (of_int d)))
                 (MakeTime (Fin (of_int h)) (Fin (of_int mi)) (Fin (of_int s)) (Fin 0))
        = Fin (of_int (utcInt y m d h mi s))"
    by (simp only: MakeFullYear_int MakeDay_int MakeTime_int MakeDate_int utcInt_def Let_def
          add.assoc)
  then show ?thesis
    by (simp only: DateUTC_def TimeClip_int)
qed

lemma values_partsOf:
  "numberOf (collectValues (partsOf c) Map.empty) ''year'' = Number (showYear (cYear c))"
  "numberOf (collectValues (partsOf c) Map.empty) ''month'' = Number (pad2 (cMonth c))"
  "numberOf (collectValues (partsOf c) Map.empty) ''day'' = Number (pad2 (cDay c))"
  "numberOf (collectValues (partsOf c) Map.empty) ''hour'' = Number (pad2 (cHour c))"
  "numberOf (collectValues (partsOf c) Map.empty) ''minute'' = Number (pad2 (cMinute c))"
  "numberOf (collectValues (partsOf c) Map.empty) ''second'' = Number (pad2 (cSecond c))"
  by (simp_all add: partsOf_def numberOf_def)

lemma js_sub_int: "js_sub (Fin (of_int a)) (Fin (of_int b)) = Fin (of_int (a - b))"
  by simp

lemma assemble:
  fixes D :: int
  assumes "D = N" "h * 3600000 + mi * 60000 + s * 1000 = T"
  shows "D * 86400000 + h * 3600000 + mi * 60000 + s * 1000 = N * 86400000 + T"
  using assms by simp

lemma floor1000_range:
  fixes L :: int
  assumes "\<bar>L\<bar> \<le> 8640000000000000"
  shows "\<bar>L div 1000 * 1000\<bar> \<le> 8640000000000000"
proof -
  define q where "q = L div 1000"
  define r where "r = L mod 1000"
  have L: "L = q * 1000 + r" and r: "0 \<le> r" "r < 1000"
    unfolding q_def r_def by simp_all
  have "- 8640000000001000 < q * 1000" using assms L r by linarith
  then have "- 8640000000000 \<le> q" by linarith
  then show ?thesis unfolding q_def [symmetric] using assms L r by linarith
qed

lemma asUTC_partsOf:
  assumes yr: "100 \<le> cYear (civilOf L)" and rng: "\<bar>L\<bar> \<le> 8640000000000000"
  shows "asUTC (partsOf (civilOf L)) = Fin (of_int (L div 1000 * 1000))"
proof -
  define ms where "ms = L mod 86400000"
  define H where "H = ms div 3600000"
  define M where "M = ms div 60000 mod 60"
  define S where "S = ms div 1000 mod 60"
  obtain y m d where cfd: "civilFromDays (L div 86400000) = (y, m, d)"
    by (cases "civilFromDays (L div 86400000)") auto
  note inv = civilFromDays_inverse [OF cfd]
  have c: "civilOf L = \<lparr> cYear = y, cMonth = m, cDay = d, cHour = H, cMinute = M, cSecond = S \<rparr>"
    by (simp only: civilOf_def Let_def cfd ms_def H_def M_def S_def fst_conv snd_conv)
  have y: "100 \<le> y" using yr unfolding c by simp
  have cr: "0 \<le> H" "0 \<le> M" "0 \<le> S"
    unfolding H_def M_def S_def ms_def by (rule clock_ranges)+
  have ny: "Number (showYear y) = Fin (of_int y)"
    using y by (simp add: showYear_def Number_showNat)
  have m: "1 \<le> m" "m \<le> 12" and d: "1 \<le> d" using inv by blast+
  have mdiv: "(m - 1) div 12 = 0" and mmod: "(m - 1) mod 12 = m - 1" using m by simp_all
  have yy: "(if 0 \<le> y \<and> y \<le> 99 then 1900 + y else y) = y" using y by simp
  have dn: "DayFromYear y + monthStart (InLeapYear y) (m - 1) + d - 1 = L div 86400000"
    using inv by blast
  have cf: "H * 3600000 + M * 60000 + S * 1000 = ms div 1000 * 1000"
    unfolding H_def M_def S_def by (rule clock_fields)
  have "utcInt y (m - 1) d H M S
        = (DayFromYear y + monthStart (InLeapYear y) (m - 1) + d - 1) * 86400000 +
          H * 3600000 + M * 60000 + S * 1000"
    by (simp only: utcInt_def Let_def mdiv mmod yy add_0_right)
  also have "\<dots> = L div 86400000 * 86400000 + ms div 1000 * 1000"
    by (rule assemble [OF dn cf])
  also have "\<dots> = L div 1000 * 1000"
    unfolding ms_def by (rule day_and_clock)
  finally have u: "utcInt y (m - 1) d H M S = L div 1000 * 1000" .
  have r: "\<bar>L div 1000 * 1000\<bar> \<le> 8640000000000000"
    by (rule floor1000_range [OF rng])
  have nm: "Number (pad2 m) = Fin (of_int m)" using m by (simp add: Number_pad2)
  have nd: "Number (pad2 d) = Fin (of_int d)" using d by (simp add: Number_pad2)
  have nH: "Number (pad2 H) = Fin (of_int H)" by (rule Number_pad2 [OF cr(1)])
  have nM: "Number (pad2 M) = Fin (of_int M)" by (rule Number_pad2 [OF cr(2)])
  have nS: "Number (pad2 S) = Fin (of_int S)" by (rule Number_pad2 [OF cr(3)])
  have sub: "js_sub (Fin (of_int m)) (Fin 1) = Fin (of_int (m - 1))" by simp
  have "asUTC (partsOf (civilOf L)) =
        DateUTC (Fin (of_int y)) (Fin (of_int (m - 1))) (Fin (of_int d))
          (Fin (of_int H)) (Fin (of_int M)) (Fin (of_int S))"
    by (simp only: asUTC_def Let_def values_partsOf c civil.simps ny nm nd nH nM nS sub)
  also have "\<dots> = Fin (of_int (L div 1000 * 1000))"
    by (simp only: DateUTC_int u r if_True)
  finally show ?thesis .
qed

section \<open>The conversion loop and the shared epoch resolution\<close>

lemma formatZones_known:
  assumes "\<forall>z\<in>set zs. zoneKnown env z"
  shows "formatZones env (Some t) zs results
         = Inr (\<lambda>z. if z \<in> set zs then Some (formatHM env z t) else results z)"
  using assms
proof (induction zs arbitrary: results)
  case Nil
  then show ?case by simp
next
  case (Cons z zs)
  then have "formatZones env (Some t) (z # zs) results
             = Inr (\<lambda>x. if x \<in> set zs then Some (formatHM env x t)
                         else (results(z \<mapsto> formatHM env z t)) x)"
    by simp
  also have "(\<lambda>x. if x \<in> set zs then Some (formatHM env x t)
                         else (results(z \<mapsto> formatHM env z t)) x)
             = (\<lambda>x. if x \<in> set (z # zs) then Some (formatHM env x t) else results x)"
    by (rule ext) simp
  finally show ?case .
qed

lemma formatZones_error: "formatZones env d zs results = Inl e \<Longrightarrow> e = RangeError"
  by (induction zs arbitrary: results) (auto split: if_splits option.splits)

lemma formatZones_result:
  assumes "formatZones env d zs results = Inr m" "z \<in> set zs"
  shows "zoneKnown env z \<and> d \<noteq> None"
  using assms
proof (induction zs arbitrary: results)
  case Nil
  then show ?case by simp
next
  case (Cons a zs)
  from Cons.prems(1) obtain t where d: "d = Some t" and a: "zoneKnown env a"
    and rest: "formatZones env d zs (results(a \<mapsto> formatHM env a t)) = Inr m"
    by (auto split: if_splits option.splits)
  show ?case
  proof (cases "z = a")
    case True
    then show ?thesis using a d by simp
  next
    case False
    then have "z \<in> set zs" using Cons.prems(2) by simp
    then show ?thesis using Cons.IH [OF rest] by blast
  qed
qed

lemma getOffset_error: "getOffset env d z = Inl e \<Longrightarrow> e = RangeError"
  by (auto simp: getOffset_def split: if_splits option.splits)

lemma convertTime_unfold:
  "convertTime env dateStr timeStr src =
     (case calculateEpochFromTimezone env dateStr timeStr src of
        Inl e \<Rightarrow> Inl e
      | Inr epochUTC \<Rightarrow>
          formatZones env (newDate epochUTC) (filter (\<lambda>tz. tz \<noteq> src) allZones) Map.empty)"
  unfolding convertTime_def calculateEpochFromTimezone_def parseComponents_def
    invalidComponents_def utcMillis_def Let_def
  by (simp split: sum.splits)


section \<open>The validation\<close>

lemma invalidComponents_iff: "invalidComponents c = parsingFails c"
  unfolding invalidComponents_def parsingFails_def missingOrNaN_def isZero_def
    falsy_def isNullish_def Number_isNaN_def
  by blast

lemma calculateEpoch_invalid_iff:
  "(calculateEpochFromTimezone env d t z = Inl InvalidInput) = invalidComponents (parseComponents d t)"
  unfolding calculateEpochFromTimezone_def Let_def
  by (auto split: sum.splits dest: getOffset_error)

lemma convertTime_invalid_iff:
  "(convertTime env d t z = Inl InvalidInput) = invalidComponents (parseComponents d t)"
proof (cases "calculateEpochFromTimezone env d t z")
  case (Inl e)
  then show ?thesis
    using calculateEpoch_invalid_iff [of env d t z] by (simp add: convertTime_unfold)
next
  case (Inr b)
  then have "\<not> invalidComponents (parseComponents d t)"
    using calculateEpoch_invalid_iff [of env d t z] by simp
  moreover have "convertTime env d t z \<noteq> Inl InvalidInput"
    using Inr formatZones_error [of env "newDate b" _ Map.empty InvalidInput]
    by (auto simp: convertTime_unfold)
  ultimately show ?thesis by simp
qed

lemma convertAll_invalid_iff:
  "(convertAll env d t z = Inl InvalidInput) = invalidComponents (parseComponents d t)"
proof (cases "calculateEpochFromTimezone env d t z")
  case (Inl e)
  then show ?thesis
    using calculateEpoch_invalid_iff [of env d t z] by (simp add: convertAll_def)
next
  case (Inr b)
  then have "\<not> invalidComponents (parseComponents d t)"
    using calculateEpoch_invalid_iff [of env d t z] by simp
  moreover have "convertAll env d t z \<noteq> Inl InvalidInput"
    using Inr formatZones_error [of env "newDate b" _ Map.empty InvalidInput]
    by (auto simp: convertAll_def)
  ultimately show ?thesis by simp
qed

lemmas number_eval = Number_def trim_def isWhite_def strNumericLiteral_def unsignedDecimal_def
  isDigit_def exponentPart_def digitOf_def pow10_def

lemma parse_date_2025_01_00: "map Number (js_split CHR ''-'' ''2025-01-00'') = [Fin 2025, Fin 1, Fin 0]"
  by (simp add: number_eval)

lemma parse_date_2025_xx_15: "map Number (js_split CHR ''-'' ''2025-xx-15'') = [Fin 2025, NaN, Fin 15]"
  by (simp add: number_eval)

lemma parse_time_14: "map Number (js_split CHR '':'' ''14'') = [Fin 14]"
  by (simp add: number_eval)

lemma parse_empty: "map Number (js_split c '''') = [Fin 0]"
  by (simp add: Number_def trim_def strNumericLiteral_def)

lemma day_zero_rejected: "invalidComponents (parseComponents ''2025-01-00'' t)"
  unfolding invalidComponents_def parseComponents_def Let_def parse_date_2025_01_00
  by (simp add: element_def falsy_def)

lemma nonnumeric_rejected: "invalidComponents (parseComponents ''2025-xx-15'' t)"
  unfolding invalidComponents_def parseComponents_def Let_def parse_date_2025_xx_15
  by (simp add: element_def falsy_def)

lemma missing_minute_rejected: "invalidComponents (parseComponents d ''14'')"
  unfolding invalidComponents_def parseComponents_def Let_def parse_time_14
  by (simp add: element_def isNullish_def)

lemma empty_date_rejected: "invalidComponents (parseComponents '''' t)"
  unfolding invalidComponents_def parseComponents_def Let_def parse_empty
  by (simp add: element_def falsy_def)

lemma empty_time_rejected: "invalidComponents (parseComponents d '''')"
  unfolding invalidComponents_def parseComponents_def Let_def parse_empty
  by (simp add: element_def isNullish_def)


section \<open>Evaluation with the reference formatter\<close>

lemma getOffset_std:
  assumes tz: "tz z = Some off"
      and yr: "100 \<le> cYear (civilOf (t + off t))"
      and rng: "\<bar>t + off t\<bar> \<le> 8640000000000000"
  shows "getOffset (std_intl tz) (Some t) z
         = Inr (Fin (of_int ((t + off t) div 1000 * 1000 - t) / 60000))"
proof -
  have parts: "formatToParts (std_intl tz) z t = partsOf (civilOf (t + off t))"
    by (simp add: std_intl_def tz)
  have known: "zoneKnown (std_intl tz) z" by (simp add: std_intl_def tz)
  have "getOffset (std_intl tz) (Some t) z
        = Inr (js_neg (js_div (js_sub (Fin (of_int t)) (Fin (of_int ((t + off t) div 1000 * 1000))))
                        (Fin 60000)))"
    by (simp only: getOffset_def known parts asUTC_partsOf [OF yr rng] getTime_def
          option.case not_True_eq_False if_False)
  also have "\<dots> = Inr (Fin (of_int ((t + off t) div 1000 * 1000 - t) / 60000))"
    by (simp add: field_simps)
  finally show ?thesis .
qed

lemma newDate_int:
  "\<bar>k\<bar> \<le> 8640000000000000 \<Longrightarrow> newDate (Fin (of_int k)) = Some k"
  by (simp add: newDate_def TimeClip_int)

lemma utcMillis_int:
  assumes "year c = JNum (Fin (of_int y))" "month c = JNum (Fin (of_int mo))"
    "day c = JNum (Fin (of_int dy))" "hour c = JNum (Fin (of_int h))"
    "minute c = JNum (Fin (of_int mi))"
  shows "utcMillis c = (if \<bar>utcInt y (mo - 1) dy h mi 0\<bar> \<le> 8640000000000000
                        then Fin (of_int (utcInt y (mo - 1) dy h mi 0)) else NaN)"
proof -
  have "utcMillis c = DateUTC (Fin (of_int y)) (Fin (of_int (mo - 1))) (Fin (of_int dy))
                        (Fin (of_int h)) (Fin (of_int mi)) (Fin (of_int 0))"
    unfolding utcMillis_def assms ToNumber_def by simp
  then show ?thesis by (simp only: DateUTC_int)
qed


lemma calculateEpoch_std:
  assumes c: "parseComponents d t = \<lparr> year = JNum (Fin (of_int y)), month = JNum (Fin (of_int mo)),
                day = JNum (Fin (of_int dy)), hour = JNum (Fin (of_int h)),
                minute = JNum (Fin (of_int mi)) \<rparr>"
      and nz: "y \<noteq> 0" "mo \<noteq> 0" "dy \<noteq> 0"
      and u: "utcInt y (mo - 1) dy h mi 0 = u" and ur: "\<bar>u\<bar> \<le> 8640000000000000"
      and tz: "tz z = Some off"
      and yr: "100 \<le> cYear (civilOf (u + off u))"
      and rng: "\<bar>u + off u\<bar> \<le> 8640000000000000"
  shows "calculateEpochFromTimezone (std_intl tz) d t z
         = Inr (Fin (of_int (2 * u - (u + off u) div 1000 * 1000)))"
proof -
  have valid: "\<not> invalidComponents (parseComponents d t)"
    unfolding c invalidComponents_def using nz
    by (simp add: falsy_def isNullish_def Number_isNaN_def)
  have um: "utcMillis (parseComponents d t) = Fin (of_int u)"
    using utcMillis_int [of "parseComponents d t" y mo dy h mi] u ur unfolding c by simp
  have anchor: "newDate (Fin (of_int u)) = Some u" by (rule newDate_int [OF ur])
  have "js_sub (Fin (of_int u))
          (js_mul (js_mul (Fin (of_int ((u + off u) div 1000 * 1000 - u) / 60000)) (Fin 60)) (Fin 1000))
        = Fin (of_int (2 * u - (u + off u) div 1000 * 1000))"
    by (simp add: field_simps)
  moreover note getOffset_std [of tz z off u, OF tz yr rng]
  ultimately show ?thesis
    using valid
    by (simp only: calculateEpochFromTimezone_def Let_def um anchor if_False sum.case)
qed

lemma convertAll_std:
  assumes calc: "calculateEpochFromTimezone (std_intl tz) d t z = Inr (Fin (of_int T))"
      and rng: "\<bar>T\<bar> \<le> 8640000000000000"
      and known: "\<forall>x\<in>set allZones. tz x \<noteq> None"
  shows "convertAll (std_intl tz) d t z
         = Inr (\<lambda>x. if x \<in> set allZones then Some (formatHM (std_intl tz) x T) else None)"
proof -
  have "\<forall>x\<in>set allZones. zoneKnown (std_intl tz) x"
    using known by (simp add: std_intl_def)
  then show ?thesis
    by (simp only: convertAll_def calc newDate_int [OF rng] sum.case formatZones_known)
qed

lemma digitChar_eval:
  "digitChar 0 = CHR ''0''" "digitChar (Suc 0) = CHR ''1''" "digitChar 2 = CHR ''2''"
  "digitChar 3 = CHR ''3''" "digitChar 4 = CHR ''4''" "digitChar 5 = CHR ''5''"
  "digitChar 6 = CHR ''6''" "digitChar 7 = CHR ''7''" "digitChar 8 = CHR ''8''"
  "digitChar 9 = CHR ''9''"
  unfolding digitChar_def by (simp_all add: char_of_def bit_iff_odd)

lemmas civil_eval = civilOf_def civilFromDays_def hours_def Let_def hmOf_def pad2_def
  showNat.simps digitChar_eval

lemmas utc_eval = utcInt_def DayFromYear_def InLeapYear_def monthStart_def

lemma formatHM_std:
  "tz z = Some off \<Longrightarrow> formatHM (std_intl tz) z t = hmOf (civilOf (t + off t))"
  by (simp add: std_intl_def)

lemma getOffset_whole_seconds:
  assumes tz: "tz z = Some off"
      and yr: "100 \<le> cYear (civilOf (t + off t))"
      and rng: "\<bar>t + off t\<bar> \<le> 8640000000000000"
      and sec: "(t + off t) mod 1000 = 0"
  shows "getOffset (std_intl tz) (Some t) z = Inr (Fin (of_int (off t) / 60000))"
proof -
  have "(t + off t) div 1000 * 1000 = t + off t"
    using sec by (metis add.right_neutral div_mult_mod_eq)
  then have "(t + off t) div 1000 * 1000 - t = off t" by simp
  then show ?thesis
    using getOffset_std [of tz z off t, OF tz yr rng] by simp
qed

lemma parse_int_fields:
  "parseComponents ''2025-01-15'' ''14:30''
   = \<lparr> year = JNum (Fin (of_int 2025)), month = JNum (Fin (of_int 1)), day = JNum (Fin (of_int 15)),
       hour = JNum (Fin (of_int 14)), minute = JNum (Fin (of_int 30)) \<rparr>"
  "parseComponents ''2025-03-09'' ''04:00''
   = \<lparr> year = JNum (Fin (of_int 2025)), month = JNum (Fin (of_int 3)), day = JNum (Fin (of_int 9)),
       hour = JNum (Fin (of_int 4)), minute = JNum (Fin (of_int 0)) \<rparr>"
  "parseComponents ''2025-13-01'' ''14:30''
   = \<lparr> year = JNum (Fin (of_int 2025)), month = JNum (Fin (of_int 13)), day = JNum (Fin (of_int 1)),
       hour = JNum (Fin (of_int 14)), minute = JNum (Fin (of_int 30)) \<rparr>"
  "parseComponents ''2026-01-01'' ''14:30''
   = \<lparr> year = JNum (Fin (of_int 2026)), month = JNum (Fin (of_int 1)), day = JNum (Fin (of_int 1)),
       hour = JNum (Fin (of_int 14)), minute = JNum (Fin (of_int 30)) \<rparr>"
  "parseComponents ''2025-01-15'' ''25:61''
   = \<lparr> year = JNum (Fin (of_int 2025)), month = JNum (Fin (of_int 1)), day = JNum (Fin (of_int 15)),
       hour = JNum (Fin (of_int 25)), minute = JNum (Fin (of_int 61)) \<rparr>"
  "parseComponents ''2025-01-16'' ''02:01''
   = \<lparr> year = JNum (Fin (of_int 2025)), month = JNum (Fin (of_int 1)), day = JNum (Fin (of_int 16)),
       hour = JNum (Fin (of_int 2)), minute = JNum (Fin (of_int 1)) \<rparr>"
  "parseComponents ''2025-01-15'' ''00:00''
   = \<lparr> year = JNum (Fin (of_int 2025)), month = JNum (Fin (of_int 1)), day = JNum (Fin (of_int 15)),
       hour = JNum (Fin (of_int 0)), minute = JNum (Fin (of_int 0)) \<rparr>"
  by (simp_all add: parseComponents_def element_def number_eval)

lemma valid_int_fields:
  "\<not> invalidComponents (parseComponents ''2025-01-15'' ''14:30'')"
  "\<not> invalidComponents (parseComponents ''2025-03-09'' ''04:00'')"
  "\<not> invalidComponents (parseComponents ''2025-13-01'' ''14:30'')"
  "\<not> invalidComponents (parseComponents ''2026-01-01'' ''14:30'')"
  "\<not> invalidComponents (parseComponents ''2025-01-15'' ''25:61'')"
  "\<not> invalidComponents (parseComponents ''2025-01-16'' ''02:01'')"
  "\<not> invalidComponents (parseComponents ''2025-01-15'' ''00:00'')"
  unfolding parse_int_fields
  by (simp_all add: invalidComponents_def falsy_def isNullish_def Number_isNaN_def)

lemma zones2025_lookup:
  "zones2025 ''America/Santiago'' = Some santiago2025"
  "zones2025 ''America/New_York'' = Some newYork2025"
  "zones2025 ''America/Argentina/Buenos_Aires'' = Some (\<lambda>t. hours (-3))"
  "zones2025 ''America/Bogota'' = Some (\<lambda>t. hours (-5))"
  "zones2025 ''America/Santo_Domingo'' = Some (\<lambda>t. hours (-4))"
  by (simp_all add: zones2025_def)

lemma calculateEpoch_by_utcMillis:
  assumes "invalidComponents (parseComponents d1 t1) = invalidComponents (parseComponents d2 t2)"
      and "utcMillis (parseComponents d1 t1) = utcMillis (parseComponents d2 t2)"
  shows "calculateEpochFromTimezone env d1 t1 z = calculateEpochFromTimezone env d2 t2 z"
  unfolding calculateEpochFromTimezone_def Let_def assms ..

lemma utcMillis_rollover:
  "utcMillis (parseComponents ''2025-13-01'' ''14:30'') = utcMillis (parseComponents ''2026-01-01'' ''14:30'')"
  "utcMillis (parseComponents ''2025-01-15'' ''25:61'') = utcMillis (parseComponents ''2025-01-16'' ''02:01'')"
proof -
  have a: "utcInt 2025 (13 - 1) 1 14 30 0 = utcInt 2026 (1 - 1) 1 14 30 0"
    by (simp add: utc_eval)
  have b: "utcInt 2025 (1 - 1) 15 25 61 0 = utcInt 2025 (1 - 1) 16 2 1 0"
    by (simp add: utc_eval)
  show "utcMillis (parseComponents ''2025-13-01'' ''14:30'') = utcMillis (parseComponents ''2026-01-01'' ''14:30'')"
    using utcMillis_int [of "parseComponents ''2025-13-01'' ''14:30''" 2025 13 1 14 30]
          utcMillis_int [of "parseComponents ''2026-01-01'' ''14:30''" 2026 1 1 14 30]
    unfolding parse_int_fields a by simp
  show "utcMillis (parseComponents ''2025-01-15'' ''25:61'') = utcMillis (parseComponents ''2025-01-16'' ''02:01'')"
    using utcMillis_int [of "parseComponents ''2025-01-15'' ''25:61''" 2025 1 15 25 61]
          utcMillis_int [of "parseComponents ''2025-01-16'' ''02:01''" 2025 1 16 2 1]
    unfolding parse_int_fields b by simp
qed

lemma anchor_offset_differs:
  "getOffset (std_intl zones2025) (Some 1741492800000) ''America/New_York'' = Inr (Fin (- 300))"
  "getOffset (std_intl zones2025) (Some 1741510800000) ''America/New_York'' = Inr (Fin (- 240))"
proof -
  have a: "newYork2025 1741492800000 = hours (-5)" and b: "newYork2025 1741510800000 = hours (-4)"
    by (simp_all add: newYork2025_def)
  show "getOffset (std_intl zones2025) (Some 1741492800000) ''America/New_York'' = Inr (Fin (- 300))"
    using getOffset_whole_seconds [of zones2025 "''America/New_York''" newYork2025 1741492800000,
        OF zones2025_lookup(2)]
    by (simp add: a civil_eval cong: let_weak_cong)
  show "getOffset (std_intl zones2025) (Some 1741510800000) ''America/New_York'' = Inr (Fin (- 240))"
    using getOffset_whole_seconds [of zones2025 "''America/New_York''" newYork2025 1741510800000,
        OF zones2025_lookup(2)]
    by (simp add: b civil_eval cong: let_weak_cong)
qed

lemma calculateEpoch_scenario:
  "calculateEpochFromTimezone (std_intl zones2025) ''2025-01-15'' ''14:30'' ''America/Santiago''
   = Inr (Fin (of_int 1736962200000))"
proof -
  have u: "utcInt 2025 (1 - 1) 15 14 30 0 = 1736951400000"
    by (simp add: utc_eval)
  have off: "santiago2025 1736951400000 = hours (-3)"
    by (simp add: santiago2025_def)
  have "calculateEpochFromTimezone (std_intl zones2025) ''2025-01-15'' ''14:30'' ''America/Santiago''
        = Inr (Fin (of_int (2 * 1736951400000 - (1736951400000 + santiago2025 1736951400000) div 1000 * 1000)))"
    by (rule calculateEpoch_std [of _ _ 2025 1 15 14 30 1736951400000 zones2025 _ santiago2025,
          OF parse_int_fields(1) _ _ _ u _ zones2025_lookup(1)])
       (simp_all add: off civil_eval cong: let_weak_cong)
  then show ?thesis unfolding off by (simp add: hours_def)
qed

lemma zones2025_known: "\<forall>x\<in>set allZones. zoneKnown (std_intl zones2025) x"
  by (simp add: allZones_def zones2025_def std_intl_def)

lemma utcMillis_scenario: "utcMillis (parseComponents ''2025-01-15'' ''14:30'') = Fin 1736951400000"
proof -
  have u: "utcInt 2025 (1 - 1) 15 14 30 0 = 1736951400000"
    by (simp add: utc_eval)
  show ?thesis
    using utcMillis_int [of "parseComponents ''2025-01-15'' ''14:30''" 2025 1 15 14 30]
    unfolding parse_int_fields u by simp
qed

lemma getOffset_scenario:
  "getOffset (std_intl zones2025) (Some 1736951400000) ''America/Santiago'' = Inr (Fin (- 180))"
proof -
  have a: "santiago2025 1736951400000 = hours (-3)"
    by (simp add: santiago2025_def)
  show ?thesis
    using getOffset_whole_seconds [of zones2025 "''America/Santiago''" santiago2025 1736951400000,
        OF zones2025_lookup(1)]
    by (simp add: a civil_eval cong: let_weak_cong)
qed




section \<open>The entries of one conversion\<close>

text \<open>The loop of \<^verbatim>\<open>convertAll\<close> formats one date object for every zone of the list.\<close>

lemma convertAll_same_instant:
  assumes "convertAll env d t src = Inr m"
  shows "\<exists>e T. calculateEpochFromTimezone env d t src = Inr e \<and> newDate e = Some T
               \<and> (\<forall>z\<in>set allZones. m z = Some (formatHM env z T))"
proof -
  obtain e where e: "calculateEpochFromTimezone env d t src = Inr e"
    and fz: "formatZones env (newDate e) allZones Map.empty = Inr m"
    using assms by (auto simp: convertAll_def split: sum.splits)
  have "''America/Santiago'' \<in> set allZones" by (simp add: allZones_def)
  from formatZones_result [OF fz this] obtain T where T: "newDate e = Some T" by auto
  have known: "\<forall>z\<in>set allZones. zoneKnown env z"
    using formatZones_result [OF fz] by blast
  have "m = (\<lambda>z. if z \<in> set allZones then Some (formatHM env z T) else None)"
    using fz unfolding T formatZones_known [OF known] by simp
  then show ?thesis using e T by auto
qed

section \<open>Inputs in the civil ranges always resolve\<close>

lemma DayFromYear_bounds:
  "146097 * y - 287811596 \<le> 400 * DayFromYear y"
  "400 * DayFromYear y \<le> 146097 * y - 287810501"
proof -
  define a where "a = (y - 1969) div 4"
  define b where "b = (y - 1901) div 100"
  define c where "c = (y - 1601) div 400"
  define ra where "ra = (y - 1969) mod 4"
  define rb where "rb = (y - 1901) mod 100"
  define rc where "rc = (y - 1601) mod 400"
  have a: "y = a * 4 + ra + 1969" "0 \<le> ra" "ra \<le> 3"
    unfolding a_def ra_def by (simp_all add: algebra_simps)
  have b: "y = b * 100 + rb + 1901" "0 \<le> rb" "rb \<le> 99"
    unfolding b_def rb_def by (simp_all add: algebra_simps)
  have c: "y = c * 400 + rc + 1601" "0 \<le> rc" "rc \<le> 399"
    unfolding c_def rc_def by (simp_all add: algebra_simps)
  have "DayFromYear y = 365 * (y - 1970) + a - b + c"
    unfolding DayFromYear_def a_def b_def c_def ..
  then have D: "400 * DayFromYear y = 146000 * y - 287620000 + 400 * a - 400 * b + 400 * c"
    by (simp add: algebra_simps)
  have a1: "100 * y - 197200 \<le> 400 * a" "400 * a \<le> 100 * y - 196900" using a by linarith+
  have b1: "4 * y - 8000 \<le> 400 * b" "400 * b \<le> 4 * y - 7604" using b by linarith+
  have c1: "y - 2000 \<le> 400 * c" "400 * c \<le> y - 1601" using c by linarith+
  show "146097 * y - 287811596 \<le> 400 * DayFromYear y"
    unfolding D using a1 b1 c1 by linarith
  show "400 * DayFromYear y \<le> 146097 * y - 287810501"
    unfolding D using a1 b1 c1 by linarith
qed

lemma monthStart_bounds:
  assumes "0 \<le> mn" "mn \<le> 11"
  shows "0 \<le> monthStart leap mn" "monthStart leap mn \<le> 335"
  using assms by (auto simp: monthStart_def Let_def)

lemma utcInt_civil_range:
  assumes "1000 \<le> y" "y \<le> 9999" "1 \<le> mo" "mo \<le> 12" "1 \<le> dy" "dy \<le> 31"
    "0 \<le> h" "h \<le> 23" "0 \<le> mi" "mi \<le> 59"
  shows "- 30620000000000 \<le> utcInt y (mo - 1) dy h mi 0"
    and "utcInt y (mo - 1) dy h mi 0 \<le> 253500000000000"
proof -
  have mdiv: "(mo - 1) div 12 = 0" and mmod: "(mo - 1) mod 12 = mo - 1"
    using assms by simp_all
  have yy: "(if 0 \<le> y \<and> y \<le> 99 then 1900 + y else y) = y" using assms by simp
  define D where "D = DayFromYear y"
  define ms where "ms = monthStart (InLeapYear y) (mo - 1)"
  have "utcInt y (mo - 1) dy h mi 0 = (D + ms + dy - 1) * 86400000 + h * 3600000 + mi * 60000"
    by (simp only: utcInt_def Let_def mdiv mmod yy add_0_right D_def ms_def mult_zero_left)
  then have u: "utcInt y (mo - 1) dy h mi 0
      = 86400000 * D + 86400000 * ms + 86400000 * dy - 86400000 + 3600000 * h + 60000 * mi"
    by (simp add: algebra_simps)
  have ms: "0 \<le> ms" "ms \<le> 335"
    unfolding ms_def using assms by (simp_all add: monthStart_bounds)
  have D: "- 354288 \<le> D" "D \<le> 2932533"
    unfolding D_def using DayFromYear_bounds [of y] assms by linarith+
  show "- 30620000000000 \<le> utcInt y (mo - 1) dy h mi 0"
    unfolding u using ms D assms by linarith
  show "utcInt y (mo - 1) dy h mi 0 \<le> 253500000000000"
    unfolding u using ms D assms by linarith
qed

lemma cYear_lower:
  assumes "- 30700000000000 \<le> L"
  shows "100 \<le> cYear (civilOf L)"
proof (rule ccontr)
  assume n: "\<not> 100 \<le> cYear (civilOf L)"
  obtain y m d where cfd: "civilFromDays (L div 86400000) = (y, m, d)"
    by (cases "civilFromDays (L div 86400000)") auto
  note inv = civilFromDays_inverse [OF cfd]
  have y: "y \<le> 99" using n by (simp add: civilOf_def Let_def cfd)
  define q where "q = L div 86400000"
  define r where "r = L mod 86400000"
  have L: "L = q * 86400000 + r" "0 \<le> r" "r < 86400000" unfolding q_def r_def by simp_all
  have q: "- 355325 \<le> q" using assms L by linarith
  have ms: "monthStart (InLeapYear y) (m - 1) \<le> 335"
    using inv by (intro monthStart_bounds) simp_all
  have "400 * DayFromYear y \<le> 146097 * y - 287810501" by (rule DayFromYear_bounds)
  then have "DayFromYear y \<le> - 683367" using y by linarith
  moreover have "DayFromYear y + monthStart (InLeapYear y) (m - 1) + d - 1 = q"
    using inv unfolding q_def by blast
  ultimately show False using ms inv q by linarith
qed

lemma calculateEpoch_std_total:
  assumes parse: "parseComponents d t = \<lparr> year = JNum (Fin (of_int y)), month = JNum (Fin (of_int mo)),
                day = JNum (Fin (of_int dy)), hour = JNum (Fin (of_int h)),
                minute = JNum (Fin (of_int mi)) \<rparr>"
      and civil: "1000 \<le> y" "y \<le> 9999" "1 \<le> mo" "mo \<le> 12" "1 \<le> dy" "dy \<le> 31"
                 "0 \<le> h" "h \<le> 23" "0 \<le> mi" "mi \<le> 59"
      and tz: "tz z = Some off"
      and bound: "\<And>x. \<bar>off x\<bar> \<le> 86400000"
  shows "\<exists>T. calculateEpochFromTimezone (std_intl tz) d t z = Inr (Fin (of_int T))
             \<and> \<bar>T\<bar> \<le> 8640000000000000"
proof -
  define u where "u = utcInt y (mo - 1) dy h mi 0"
  note ur = utcInt_civil_range [OF civil, folded u_def]
  define L where "L = u + off u"
  have Lr: "- 30700000000000 \<le> L" "L \<le> 253600000000000"
    unfolding L_def using ur bound [of u] by linarith+
  have yr: "100 \<le> cYear (civilOf (u + off u))"
    using cYear_lower [OF Lr(1)] by (simp add: L_def)
  have rng: "\<bar>u + off u\<bar> \<le> 8640000000000000"
    using Lr by (simp add: L_def)
  have ur': "\<bar>u\<bar> \<le> 8640000000000000" using ur by linarith
  have nz: "y \<noteq> 0" "mo \<noteq> 0" "dy \<noteq> 0" using civil by simp_all
  have calc: "calculateEpochFromTimezone (std_intl tz) d t z
              = Inr (Fin (of_int (2 * u - (u + off u) div 1000 * 1000)))"
    by (rule calculateEpoch_std [of d t y mo dy h mi u tz z off, OF parse nz _ ur' tz yr rng])
       (simp add: u_def)
  define q where "q = L div 1000"
  define r where "r = L mod 1000"
  have Lq: "L = q * 1000 + r" "0 \<le> r" "r < 1000" unfolding q_def r_def by simp_all
  have "\<bar>2 * u - q * 1000\<bar> \<le> 8640000000000000"
    using ur Lr Lq by linarith
  then have "\<bar>2 * u - (u + off u) div 1000 * 1000\<bar> \<le> 8640000000000000"
    by (simp add: q_def L_def)
  then show ?thesis using calc by blast
qed

lemma convertTime_keys_resolved:
  assumes calc: "calculateEpochFromTimezone env d t src = Inr e"
      and date: "newDate e = Some T"
      and known: "\<forall>z\<in>set allZones. zoneKnown env z"
  shows "\<exists>m. convertTime env d t src = Inr m
             \<and> dom m = set allZones - {src}
             \<and> (\<forall>z\<in>set allZones - {src}. m z = Some (formatHM env z T))
             \<and> (src \<in> set allZones \<longrightarrow> card (dom m) = 4)"
proof -
  let ?zs = "filter (\<lambda>tz. tz \<noteq> src) allZones"
  let ?m = "\<lambda>z. if z \<in> set ?zs then Some (formatHM env z T) else None"
  have "\<forall>z\<in>set ?zs. zoneKnown env z" using known by simp
  then have "formatZones env (Some T) ?zs Map.empty = Inr ?m"
    by (simp only: formatZones_known)
  then have conv: "convertTime env d t src = Inr ?m"
    by (simp only: convertTime_unfold calc date sum.case)
  have zs: "set ?zs = set allZones - {src}" by auto
  have dom: "dom ?m = set allZones - {src}"
    unfolding zs by (auto simp: dom_def)
  have dist: "distinct allZones" by (simp add: allZones_def)
  have card: "src \<in> set allZones \<Longrightarrow> card (set allZones - {src}) = 4"
    using distinct_card [OF dist] by (simp add: allZones_def)
  show ?thesis
    using conv dom card zs by (intro exI [of _ ?m]) auto
qed

section \<open>Re-resolving the entries of a conversion across a transition\<close>







section \<open>The claims\<close>

text \<open>
  Claim C9. For identical date string, time string and source zone, the legacy converter
  \<^verbatim>\<open>convertTime\<close> and the helper \<^verbatim>\<open>calculateEpochFromTimezone\<close> resolve the same epoch
  and throw the invalid-input error under exactly the same condition: \<^verbatim>\<open>convertTime\<close> is
  the helper followed by the formatting loop over the zones other than the source.
\<close>

theorem epoch_resolution_shared:
  "convertTime env dateStr timeStr src =
     (case calculateEpochFromTimezone env dateStr timeStr src of
        Inl e \<Rightarrow> Inl e
      | Inr epochUTC \<Rightarrow>
          formatZones env (newDate epochUTC) (filter (\<lambda>tz. tz \<noteq> src) allZones) Map.empty)
   \<and> (convertTime env dateStr timeStr src = Inl InvalidInput)
       = (calculateEpochFromTimezone env dateStr timeStr src = Inl InvalidInput)"
proof -
  have "(convertTime env dateStr timeStr src = Inl InvalidInput)
       = (calculateEpochFromTimezone env dateStr timeStr src = Inl InvalidInput)"
    unfolding convertTime_unfold
    by (cases "calculateEpochFromTimezone env dateStr timeStr src")
       (auto dest: formatZones_error)
  then show ?thesis using convertTime_unfold by blast
qed


text \<open>
  Claim C6. The conversion fails with the invalid-input error exactly when parsing fails:
  one of year, month, day, hour and minute is missing or not a number, or the year, month
  or day is zero. The date \<^verbatim>\<open>2025-01-00\<close>, a time without a minute and a date with a
  non-numeric month are rejected. A failed call returns the error and no result object.
\<close>

theorem invalid_input_exactly:
  "(calculateEpochFromTimezone env d t z = Inl InvalidInput) = parsingFails (parseComponents d t)
   \<and> (convertTime env d t z = Inl InvalidInput) = parsingFails (parseComponents d t)
   \<and> (convertAll env d t z = Inl InvalidInput) = parsingFails (parseComponents d t)
   \<and> convertTime env ''2025-01-00'' t z = Inl InvalidInput
   \<and> convertAll env ''2025-01-00'' t z = Inl InvalidInput
   \<and> convertTime env d ''14'' z = Inl InvalidInput
   \<and> convertAll env d ''14'' z = Inl InvalidInput
   \<and> convertTime env ''2025-xx-15'' t z = Inl InvalidInput
   \<and> convertAll env ''2025-xx-15'' t z = Inl InvalidInput"
  using day_zero_rejected [of t] missing_minute_rejected [of d] nonnumeric_rejected [of t]
  by (simp add: calculateEpoch_invalid_iff convertTime_invalid_iff convertAll_invalid_iff
        invalidComponents_iff)

text \<open>
  Claim C4. Converting 14:30 on 2025-01-15 in America/Santiago over the full zone list
  gives 12:30 for America/New_York and 12:30 for America/Bogota, for every formatter
  that observes Santiago at UTC-3 at the anchor instant and New York and Bogota at
  UTC-5 at the resolved instant.
\<close>

theorem santiago_scenario:
  assumes S: "tz ''America/Santiago'' = Some fS" and Sa: "fS 1736951400000 = hours (-3)"
      and N: "tz ''America/New_York'' = Some fN" and Na: "fN 1736962200000 = hours (-5)"
      and B: "tz ''America/Bogota'' = Some fB" and Ba: "fB 1736962200000 = hours (-5)"
      and A: "tz ''America/Argentina/Buenos_Aires'' \<noteq> None"
      and D: "tz ''America/Santo_Domingo'' \<noteq> None"
  shows "\<exists>m. convertAll (std_intl tz) ''2025-01-15'' ''14:30'' ''America/Santiago'' = Inr m
             \<and> m ''America/New_York'' = Some ''12:30''
             \<and> m ''America/Bogota'' = Some ''12:30''"
proof -
  have u: "utcInt 2025 (1 - 1) 15 14 30 0 = 1736951400000"
    by (simp add: utc_eval)
  have calc: "calculateEpochFromTimezone (std_intl tz) ''2025-01-15'' ''14:30'' ''America/Santiago''
        = Inr (Fin (of_int (2 * 1736951400000 - (1736951400000 + fS 1736951400000) div 1000 * 1000)))"
    by (rule calculateEpoch_std [of _ _ 2025 1 15 14 30 1736951400000 tz _ fS,
          OF parse_int_fields(1) _ _ _ u _ S])
       (simp_all add: Sa civil_eval cong: let_weak_cong)
  have known: "\<forall>x\<in>set allZones. tz x \<noteq> None"
    using S N B A D by (simp add: allZones_def)
  have calc': "calculateEpochFromTimezone (std_intl tz) ''2025-01-15'' ''14:30'' ''America/Santiago''
        = Inr (Fin (of_int 1736962200000))"
    unfolding calc Sa by (simp add: hours_def)
  have all: "convertAll (std_intl tz) ''2025-01-15'' ''14:30'' ''America/Santiago''
        = Inr (\<lambda>x. if x \<in> set allZones then Some (formatHM (std_intl tz) x 1736962200000) else None)"
    by (rule convertAll_std [OF calc' _ known]) simp
  have ny: "formatHM (std_intl tz) ''America/New_York'' 1736962200000 = ''12:30''"
    by (simp add: formatHM_std [of tz "''America/New_York''" fN, OF N] Na civil_eval cong: let_weak_cong)
  have bo: "formatHM (std_intl tz) ''America/Bogota'' 1736962200000 = ''12:30''"
    by (simp add: formatHM_std [of tz "''America/Bogota''" fB, OF B] Ba civil_eval cong: let_weak_cong)
  show ?thesis
    unfolding all using ny bo by (simp add: allZones_def)
qed

theorem santiago_scenario_witness:
  "\<exists>m. convertAll (std_intl zones2025) ''2025-01-15'' ''14:30'' ''America/Santiago'' = Inr m
       \<and> m ''America/New_York'' = Some ''12:30''
       \<and> m ''America/Bogota'' = Some ''12:30''"
  by (rule santiago_scenario [of zones2025 santiago2025 newYork2025 "\<lambda>t. hours (-5)"])
     (simp_all add: zones2025_lookup santiago2025_def newYork2025_def)

text \<open>
  Claim C7. Converting a civil time with source zone Z and reading back the entry for Z
  should return the input time. It does not near a daylight-saving transition of Z: with
  New York's 2025 rules, 04:00 on 2025-03-09 (an existing local time, after the clocks
  went forward at 07:00 UTC) comes back as 05:00, because the offset is resolved at the
  anchor 04:00 UTC, before the transition, and not at the instant itself.
\<close>

theorem dst_roundtrip_failure:
  "\<exists>m. convertAll (std_intl zones2025) ''2025-03-09'' ''04:00'' ''America/New_York'' = Inr m
       \<and> m ''America/New_York'' = Some ''05:00''"
proof -
  have u: "utcInt 2025 (3 - 1) 9 4 0 0 = 1741492800000"
    by (simp add: utc_eval)
  have off: "newYork2025 1741492800000 = hours (-5)"
    by (simp add: newYork2025_def)
  have calc: "calculateEpochFromTimezone (std_intl zones2025) ''2025-03-09'' ''04:00'' ''America/New_York''
        = Inr (Fin (of_int (2 * 1741492800000 - (1741492800000 + newYork2025 1741492800000) div 1000 * 1000)))"
    by (rule calculateEpoch_std [of _ _ 2025 3 9 4 0 1741492800000 zones2025 _ newYork2025,
          OF parse_int_fields(2) _ _ _ u _ zones2025_lookup(2)])
       (simp_all add: off civil_eval cong: let_weak_cong)
  have known: "\<forall>x\<in>set allZones. zones2025 x \<noteq> None"
    by (simp add: allZones_def zones2025_def)
  have calc': "calculateEpochFromTimezone (std_intl zones2025) ''2025-03-09'' ''04:00'' ''America/New_York''
        = Inr (Fin (of_int 1741510800000))"
    unfolding calc off by (simp add: hours_def)
  have all: "convertAll (std_intl zones2025) ''2025-03-09'' ''04:00'' ''America/New_York''
        = Inr (\<lambda>x. if x \<in> set allZones then Some (formatHM (std_intl zones2025) x 1741510800000) else None)"
    by (rule convertAll_std [OF calc' _ known]) simp
  have ny: "formatHM (std_intl zones2025) ''America/New_York'' 1741510800000 = ''05:00''"
    by (simp add: formatHM_std [of zones2025 "''America/New_York''" newYork2025, OF zones2025_lookup(2)]
          newYork2025_def civil_eval cong: let_weak_cong)
  show ?thesis
    unfolding all using ny by (simp add: allZones_def)
qed

text \<open>
  Claim C5, as stated: each of the date \<^verbatim>\<open>2025-13-01\<close>, the time \<^verbatim>\<open>25:61\<close>, the empty date
  and the empty time fails with the invalid-input error. The first two do not: the
  validation has no range checks.
\<close>

theorem out_of_range_accepted:
  "convertAll (std_intl zones2025) ''2025-13-01'' ''14:30'' ''America/Santiago'' \<noteq> Inl InvalidInput
   \<and> convertAll (std_intl zones2025) ''2025-01-15'' ''25:61'' ''America/Santiago'' \<noteq> Inl InvalidInput"
  by (simp add: convertAll_invalid_iff valid_int_fields)

text \<open>
  Claim C5, amended. The empty date and the empty time each fail with the invalid-input
  error, whatever the other arguments. The date \<^verbatim>\<open>2025-13-01\<close> and the time \<^verbatim>\<open>25:61\<close> pass
  the validation, and \<^verbatim>\<open>Date.UTC\<close> carries the excess over: they convert exactly as
  \<^verbatim>\<open>2026-01-01\<close> and as \<^verbatim>\<open>02:01\<close> on the next day do.
\<close>

theorem empty_rejected_range_unchecked:
  "convertTime env '''' t z = Inl InvalidInput
   \<and> convertAll env '''' t z = Inl InvalidInput
   \<and> convertTime env d '''' z = Inl InvalidInput
   \<and> convertAll env d '''' z = Inl InvalidInput
   \<and> convertTime env ''2025-13-01'' ''14:30'' z \<noteq> Inl InvalidInput
   \<and> convertAll env ''2025-13-01'' ''14:30'' z \<noteq> Inl InvalidInput
   \<and> convertTime env ''2025-01-15'' ''25:61'' z \<noteq> Inl InvalidInput
   \<and> convertAll env ''2025-01-15'' ''25:61'' z \<noteq> Inl InvalidInput
   \<and> convertTime env ''2025-13-01'' ''14:30'' z = convertTime env ''2026-01-01'' ''14:30'' z
   \<and> convertAll env ''2025-13-01'' ''14:30'' z = convertAll env ''2026-01-01'' ''14:30'' z
   \<and> convertTime env ''2025-01-15'' ''25:61'' z = convertTime env ''2025-01-16'' ''02:01'' z
   \<and> convertAll env ''2025-01-15'' ''25:61'' z = convertAll env ''2025-01-16'' ''02:01'' z"
proof -
  have m: "calculateEpochFromTimezone env ''2025-13-01'' ''14:30'' z
           = calculateEpochFromTimezone env ''2026-01-01'' ''14:30'' z"
    by (rule calculateEpoch_by_utcMillis) (simp_all add: valid_int_fields utcMillis_rollover)
  have h: "calculateEpochFromTimezone env ''2025-01-15'' ''25:61'' z
           = calculateEpochFromTimezone env ''2025-01-16'' ''02:01'' z"
    by (rule calculateEpoch_by_utcMillis) (simp_all add: valid_int_fields utcMillis_rollover)
  have rej: "convertTime env '''' t z = Inl InvalidInput" "convertAll env '''' t z = Inl InvalidInput"
    "convertTime env d '''' z = Inl InvalidInput" "convertAll env d '''' z = Inl InvalidInput"
    using empty_date_rejected [of t] empty_time_rejected [of d]
    by (simp_all add: convertTime_invalid_iff convertAll_invalid_iff)
  have acc: "convertTime env ''2025-13-01'' ''14:30'' z \<noteq> Inl InvalidInput"
    "convertAll env ''2025-13-01'' ''14:30'' z \<noteq> Inl InvalidInput"
    "convertTime env ''2025-01-15'' ''25:61'' z \<noteq> Inl InvalidInput"
    "convertAll env ''2025-01-15'' ''25:61'' z \<noteq> Inl InvalidInput"
    by (simp_all add: convertTime_invalid_iff convertAll_invalid_iff valid_int_fields)
  have same: "convertTime env ''2025-13-01'' ''14:30'' z = convertTime env ''2026-01-01'' ''14:30'' z"
    "convertAll env ''2025-13-01'' ''14:30'' z = convertAll env ''2026-01-01'' ''14:30'' z"
    "convertTime env ''2025-01-15'' ''25:61'' z = convertTime env ''2025-01-16'' ''02:01'' z"
    "convertAll env ''2025-01-15'' ''25:61'' z = convertAll env ''2025-01-16'' ''02:01'' z"
    by (simp_all only: convertTime_unfold convertAll_def m h)
  show ?thesis using rej acc same by blast
qed

text \<open>
  Claim C2. For an instant and a zone the formatter knows, the offset resolver returns
  \<open>-(instant - asUTC) / 60000\<close>, where \<open>asUTC\<close> is \<^verbatim>\<open>Date.UTC\<close> of the year, month, day,
  hour, minute and second that the formatter shows for the instant in the zone. With a
  formatter that shows the local time of a zone whose clock is \<open>off\<close> milliseconds ahead of
  UTC, the result is \<open>off / 60000\<close> minutes: positive east of UTC, negative west of it (for
  whole-second instants whose local year is 100 or later, where \<^verbatim>\<open>Date.UTC\<close> reads the
  year as written).
\<close>

theorem getOffset_minutes:
  "(zoneKnown env z \<longrightarrow>
      getOffset env (Some t) z
      = Inr (js_neg (js_div (js_sub (Fin (of_int t)) (asUTC (formatToParts env z t))) (Fin 60000))))
   \<and> (tz z = Some off \<and> 100 \<le> cYear (civilOf (t + off t))
        \<and> \<bar>t + off t\<bar> \<le> 8640000000000000 \<and> (t + off t) mod 1000 = 0 \<longrightarrow>
      getOffset (std_intl tz) (Some t) z = Inr (Fin (of_int (off t) / 60000)))"
proof (intro conjI impI)
  assume "zoneKnown env z"
  then show "getOffset env (Some t) z
      = Inr (js_neg (js_div (js_sub (Fin (of_int t)) (asUTC (formatToParts env z t))) (Fin 60000)))"
    by (simp add: getOffset_def getTime_def)
next
  assume h: "tz z = Some off \<and> 100 \<le> cYear (civilOf (t + off t))
        \<and> \<bar>t + off t\<bar> \<le> 8640000000000000 \<and> (t + off t) mod 1000 = 0"
  show "getOffset (std_intl tz) (Some t) z = Inr (Fin (of_int (off t) / 60000))"
    by (rule getOffset_whole_seconds [of tz z off t]) (use h in blast)+
qed

theorem getOffset_minutes_witness:
  "getOffset (std_intl zones2025) (Some 1736951400000) ''America/Santiago'' = Inr (Fin (- 180))
   \<and> getOffset (std_intl (\<lambda>z. Some (\<lambda>t. hours 1))) (Some 1736951400000) ''Europe/Paris'' = Inr (Fin 60)"
proof -
  have a: "santiago2025 1736951400000 = hours (-3)"
    by (simp add: santiago2025_def)
  have west: "getOffset (std_intl zones2025) (Some 1736951400000) ''America/Santiago'' = Inr (Fin (- 180))"
    using getOffset_minutes [of "std_intl zones2025" "''America/Santiago''" 1736951400000
        zones2025 santiago2025]
    by (simp add: zones2025_lookup a civil_eval cong: let_weak_cong)
  have east: "getOffset (std_intl (\<lambda>z. Some (\<lambda>t. hours 1))) (Some 1736951400000) ''Europe/Paris'' = Inr (Fin 60)"
    using getOffset_minutes [of "std_intl (\<lambda>z. Some (\<lambda>t. hours 1))" "''Europe/Paris''" 1736951400000
        "\<lambda>z. Some (\<lambda>t. hours 1)" "\<lambda>t. hours 1"]
    by (simp add: civil_eval cong: let_weak_cong)
  show ?thesis using west east by simp
qed

text \<open>
  Claim C3. For an input that passes the validation, the converter computes the instant
  as \<open>utcMillis - offsetSource * 60000\<close>, where \<open>utcMillis\<close> is \<^verbatim>\<open>Date.UTC\<close> of the civil
  fields and \<open>offsetSource\<close> is the offset resolved at the anchor, the date built from
  \<open>utcMillis\<close> itself. Both \<^verbatim>\<open>calculateEpochFromTimezone\<close> and \<^verbatim>\<open>convertTime\<close> do so.
\<close>

theorem epoch_from_anchor_offset:
  assumes valid: "\<not> invalidComponents (parseComponents d t)"
      and utc: "utcMillis (parseComponents d t) = Fin u"
      and off: "getOffset env (newDate (Fin u)) z = Inr (Fin off)"
  shows "calculateEpochFromTimezone env d t z = Inr (Fin (u - off * 60000))
         \<and> convertTime env d t z
             = formatZones env (newDate (Fin (u - off * 60000)))
                 (filter (\<lambda>tz. tz \<noteq> z) allZones) Map.empty"
proof -
  have calc: "calculateEpochFromTimezone env d t z = Inr (Fin (u - off * 60000))"
    unfolding calculateEpochFromTimezone_def Let_def utc off using valid by simp
  then show ?thesis by (simp add: convertTime_unfold)
qed

theorem epoch_from_anchor_offset_witness:
  "\<not> invalidComponents (parseComponents ''2025-01-15'' ''14:30'')
   \<and> utcMillis (parseComponents ''2025-01-15'' ''14:30'') = Fin 1736951400000
   \<and> getOffset (std_intl zones2025) (newDate (Fin 1736951400000)) ''America/Santiago'' = Inr (Fin (- 180))
   \<and> calculateEpochFromTimezone (std_intl zones2025) ''2025-01-15'' ''14:30'' ''America/Santiago''
       = Inr (Fin 1736962200000)"
proof -
  have nd: "newDate (Fin 1736951400000) = Some 1736951400000"
    using newDate_int [of 1736951400000] by simp
  have off: "getOffset (std_intl zones2025) (newDate (Fin 1736951400000)) ''America/Santiago''
             = Inr (Fin (- 180))"
    unfolding nd by (rule getOffset_scenario)
  show ?thesis
    using epoch_from_anchor_offset [OF valid_int_fields(1) utcMillis_scenario off]
      valid_int_fields(1) utcMillis_scenario off
    by simp
qed

text \<open>
  Claim C8. For a valid input whose source zone is one of the five zones, the legacy
  conversion \<^verbatim>\<open>convertTime\<close> returns a mapping whose keys are exactly the zones of the fixed
  list other than the source, four entries, each the formatter's hour-and-minute text
  for the resolved instant. This holds for any formatter once the epoch resolves to a
  valid date and the formatter knows the five zones; with the reference formatter it
  holds for every input that parses to a four-digit year, a month 1 to 12, a day 1 to 31,
  an hour 0 to 23 and a minute 0 to 59, the offsets of the zones being at most a day.
\<close>

theorem convertTime_zone_keys:
  "(calculateEpochFromTimezone env d t src = Inr e \<and> newDate e = Some T
      \<and> (\<forall>z\<in>set allZones. zoneKnown env z) \<longrightarrow>
    (\<exists>m. convertTime env d t src = Inr m
         \<and> dom m = set allZones - {src}
         \<and> (\<forall>z\<in>set allZones - {src}. m z = Some (formatHM env z T))
         \<and> (src \<in> set allZones \<longrightarrow> card (dom m) = 4)))
   \<and> (parseComponents d t = \<lparr> year = JNum (Fin (of_int y)), month = JNum (Fin (of_int mo)),
          day = JNum (Fin (of_int dy)), hour = JNum (Fin (of_int h)),
          minute = JNum (Fin (of_int mi)) \<rparr>
      \<and> 1000 \<le> y \<and> y \<le> 9999 \<and> 1 \<le> mo \<and> mo \<le> 12 \<and> 1 \<le> dy \<and> dy \<le> 31
      \<and> 0 \<le> h \<and> h \<le> 23 \<and> 0 \<le> mi \<and> mi \<le> 59
      \<and> src \<in> set allZones
      \<and> (\<forall>z\<in>set allZones. \<exists>f. tz z = Some f \<and> (\<forall>x. \<bar>f x\<bar> \<le> 86400000)) \<longrightarrow>
    (\<exists>m. convertTime (std_intl tz) d t src = Inr m
         \<and> dom m = set allZones - {src} \<and> card (dom m) = 4))"
proof (intro conjI impI)
  assume "calculateEpochFromTimezone env d t src = Inr e \<and> newDate e = Some T
      \<and> (\<forall>z\<in>set allZones. zoneKnown env z)"
  then show "\<exists>m. convertTime env d t src = Inr m
         \<and> dom m = set allZones - {src}
         \<and> (\<forall>z\<in>set allZones - {src}. m z = Some (formatHM env z T))
         \<and> (src \<in> set allZones \<longrightarrow> card (dom m) = 4)"
    using convertTime_keys_resolved [of env d t src e T] by blast
next
  assume h: "parseComponents d t = \<lparr> year = JNum (Fin (of_int y)), month = JNum (Fin (of_int mo)),
          day = JNum (Fin (of_int dy)), hour = JNum (Fin (of_int h)),
          minute = JNum (Fin (of_int mi)) \<rparr>
      \<and> 1000 \<le> y \<and> y \<le> 9999 \<and> 1 \<le> mo \<and> mo \<le> 12 \<and> 1 \<le> dy \<and> dy \<le> 31
      \<and> 0 \<le> h \<and> h \<le> 23 \<and> 0 \<le> mi \<and> mi \<le> 59
      \<and> src \<in> set allZones
      \<and> (\<forall>z\<in>set allZones. \<exists>f. tz z = Some f \<and> (\<forall>x. \<bar>f x\<bar> \<le> 86400000))"
  then obtain f where f: "tz src = Some f" "\<And>x. \<bar>f x\<bar> \<le> 86400000" by blast
  have parse: "parseComponents d t = \<lparr> year = JNum (Fin (of_int y)), month = JNum (Fin (of_int mo)),
          day = JNum (Fin (of_int dy)), hour = JNum (Fin (of_int h)),
          minute = JNum (Fin (of_int mi)) \<rparr>"
    and civil: "1000 \<le> y" "y \<le> 9999" "1 \<le> mo" "mo \<le> 12" "1 \<le> dy" "dy \<le> 31"
                 "0 \<le> h" "h \<le> 23" "0 \<le> mi" "mi \<le> 59"
    using h by blast+
  obtain T' where calc: "calculateEpochFromTimezone (std_intl tz) d t src = Inr (Fin (of_int T'))"
    and rng: "\<bar>T'\<bar> \<le> 8640000000000000"
    using calculateEpoch_std_total [of d t y mo dy h mi tz src f, OF parse civil f] by blast
  have known: "\<forall>z\<in>set allZones. zoneKnown (std_intl tz) z"
    using h by (auto simp: std_intl_def)
  have src: "src \<in> set allZones" using h by blast
  show "\<exists>m. convertTime (std_intl tz) d t src = Inr m
         \<and> dom m = set allZones - {src} \<and> card (dom m) = 4"
    using convertTime_keys_resolved [OF calc newDate_int [OF rng] known] src by blast
qed

theorem convertTime_zone_keys_witness:
  "\<exists>m. convertTime (std_intl zones2025) ''2025-01-15'' ''14:30'' ''America/Santiago'' = Inr m
       \<and> dom m = {''America/New_York'', ''America/Argentina/Buenos_Aires'', ''America/Bogota'',
                  ''America/Santo_Domingo''}
       \<and> card (dom m) = 4"
proof -
  have bounded: "\<forall>z\<in>set allZones. \<exists>f. zones2025 z = Some f \<and> (\<forall>x. \<bar>f x\<bar> \<le> 86400000)"
    by (simp add: allZones_def zones2025_lookup santiago2025_def newYork2025_def hours_def)
  have src: "''America/Santiago'' \<in> set allZones" by (simp add: allZones_def)
  have civil: "(1000::int) \<le> 2025 \<and> (2025::int) \<le> 9999 \<and> (1::int) \<le> 1 \<and> (1::int) \<le> 12
      \<and> (1::int) \<le> 15 \<and> (15::int) \<le> 31 \<and> (0::int) \<le> 14 \<and> (14::int) \<le> 23
      \<and> (0::int) \<le> 30 \<and> (30::int) \<le> 59"
    by simp
  note inst = convertTime_zone_keys [of "std_intl zones2025" "''2025-01-15''" "''14:30''"
      "''America/Santiago''" NaN 0 2025 1 15 14 30 zones2025, THEN conjunct2, rule_format]
  have "\<exists>m. convertTime (std_intl zones2025) ''2025-01-15'' ''14:30'' ''America/Santiago'' = Inr m
         \<and> dom m = set allZones - {''America/Santiago''} \<and> card (dom m) = 4"
    by (rule inst) (use parse_int_fields(1) civil src bounded in blast)
  then obtain m where m: "convertTime (std_intl zones2025) ''2025-01-15'' ''14:30'' ''America/Santiago'' = Inr m"
    "dom m = set allZones - {''America/Santiago''}" "card (dom m) = 4"
    by blast
  have "set allZones - {''America/Santiago''}
        = {''America/New_York'', ''America/Argentina/Buenos_Aires'', ''America/Bogota'',
           ''America/Santo_Domingo''}"
    by (auto simp: allZones_def)
  then show ?thesis using m by auto
qed




end
